theory Spec2Isabelle
  imports Main "HOL-Library.Sublist"
begin

section \<open>JavaScript strings and the string primitives the plugin uses\<close>

text \<open>
  The plugin (\<^verbatim>\<open>src/main.ts\<close>) is string processing around calls to the file system and
  to child processes.  A JavaScript string is modelled as a \<^typ>\<open>string\<close>: one \<^typ>\<open>char\<close>
  per UTF-16 code unit, for the code units below 256.  The backslash cannot be written inside
  a string literal, so it is spelled \<open>bsl\<close>.
\<close>

abbreviation bsl :: string where
  "bsl \<equiv> [CHR 0x5C]"

text \<open>
  The class \<^verbatim>\<open>\s\<close> of a regular expression, which is also what \<^verbatim>\<open>String.prototype.trim\<close>
  strips: tab, line feed, vertical tab, form feed, carriage return, space and no-break space
  (the members of the class below 256).
\<close>

definition is_space :: "char \<Rightarrow> bool" where
  "is_space c = (c \<in> set [CHR 0x09, CHR 0x0A, CHR 0x0B, CHR 0x0C, CHR 0x0D, CHR 0x20, CHR 0xA0])"

definition trim :: "string \<Rightarrow> string" where
  "trim s = rev (dropWhile is_space (rev (dropWhile is_space s)))"

fun strip_prefix :: "string \<Rightarrow> string \<Rightarrow> string option" where
  "strip_prefix [] s = Some s"
| "strip_prefix (p # ps) [] = None"
| "strip_prefix (p # ps) (c # cs) = (if p = c then strip_prefix ps cs else None)"

subsection \<open>Regular expressions as backtracking matchers\<close>

text \<open>
  Each regular expression of the source is written with the combinators below, one combinator
  per construct, in continuation-passing style: a matcher takes the continuation \<open>k\<close> (the
  rest of the pattern) and the remaining input, and returns the first success in the order
  in which a backtracking engine tries the alternatives.
  \<^item> \<open>lit p\<close>: the literal text \<open>p\<close>;
  \<^item> \<open>one_of P\<close>: one character of the class \<open>P\<close>;
  \<^item> \<open>star_greedy P\<close>, \<open>plus_greedy P\<close>: \<^verbatim>\<open>[P]*\<close>, \<^verbatim>\<open>[P]+\<close> (longest first, then shorter);
  \<^item> \<open>star_lazy P\<close>, \<open>plus_lazy P\<close>: \<^verbatim>\<open>[P]*?\<close>, \<^verbatim>\<open>[P]+?\<close> (shortest first, then longer);
  \<^item> \<open>opt_greedy g\<close>: \<^verbatim>\<open>(?:g)?\<close> (with the group first, then without);
  \<^item> \<open>eoi\<close>: \<^verbatim>\<open>$\<close> without the multiline flag.
  \<open>matched s0 s1\<close> is the text consumed between the input \<open>s0\<close> and its suffix \<open>s1\<close>.
\<close>

definition lit :: "string \<Rightarrow> (string \<Rightarrow> 'r option) \<Rightarrow> string \<Rightarrow> 'r option" where
  "lit p k s = (case strip_prefix p s of None \<Rightarrow> None | Some s' \<Rightarrow> k s')"

definition one_of :: "(char \<Rightarrow> bool) \<Rightarrow> (string \<Rightarrow> 'r option) \<Rightarrow> string \<Rightarrow> 'r option" where
  "one_of P k s = (case s of [] \<Rightarrow> None | c # cs \<Rightarrow> if P c then k cs else None)"

fun star_greedy :: "(char \<Rightarrow> bool) \<Rightarrow> (string \<Rightarrow> 'r option) \<Rightarrow> string \<Rightarrow> 'r option" where
  "star_greedy P k [] = k []"
| "star_greedy P k (c # cs) =
     (if P c then (case star_greedy P k cs of Some r \<Rightarrow> Some r | None \<Rightarrow> k (c # cs))
      else k (c # cs))"

definition plus_greedy :: "(char \<Rightarrow> bool) \<Rightarrow> (string \<Rightarrow> 'r option) \<Rightarrow> string \<Rightarrow> 'r option" where
  "plus_greedy P k s = (case s of [] \<Rightarrow> None | c # cs \<Rightarrow> if P c then star_greedy P k cs else None)"

fun star_lazy :: "(char \<Rightarrow> bool) \<Rightarrow> (string \<Rightarrow> 'r option) \<Rightarrow> string \<Rightarrow> 'r option" where
  "star_lazy P k [] = k []"
| "star_lazy P k (c # cs) =
     (case k (c # cs) of Some r \<Rightarrow> Some r
      | None \<Rightarrow> if P c then star_lazy P k cs else None)"

definition plus_lazy :: "(char \<Rightarrow> bool) \<Rightarrow> (string \<Rightarrow> 'r option) \<Rightarrow> string \<Rightarrow> 'r option" where
  "plus_lazy P k s = (case s of [] \<Rightarrow> None | c # cs \<Rightarrow> if P c then star_lazy P k cs else None)"

definition opt_greedy ::
  "((string \<Rightarrow> 'r option) \<Rightarrow> string \<Rightarrow> 'r option) \<Rightarrow> (string \<Rightarrow> 'r option) \<Rightarrow> string \<Rightarrow> 'r option" where
  "opt_greedy g k s = (case g k s of Some r \<Rightarrow> Some r | None \<Rightarrow> k s)"

definition eoi :: "(string \<Rightarrow> 'r option) \<Rightarrow> string \<Rightarrow> 'r option" where
  "eoi k s = (if s = [] then k s else None)"

definition matched :: "string \<Rightarrow> string \<Rightarrow> string" where
  "matched s0 s1 = take (length s0 - length s1) s0"

subsection \<open>The matching loops of \<^verbatim>\<open>replace\<close>, \<^verbatim>\<open>matchAll\<close> and \<^verbatim>\<open>match\<close>\<close>

text \<open>
  A pattern is given by its match at the start of the input: the matched text and the
  capture.  \<open>js_exec_all\<close> is the loop of a global regular expression
  (\<^verbatim>\<open>RegExp.prototype[Symbol.replace]\<close> and \<^verbatim>\<open>matchAll\<close>): it tries the pattern at
  each position from the left, and continues after a match (one character further after an
  empty match).  It returns the matches, each with the unmatched text before it, and the
  unmatched text after the last match.
\<close>

type_synonym 'c pattern = "string \<Rightarrow> (string \<times> 'c) option"

fun push_char :: "char \<Rightarrow> (string \<times> string \<times> 'c) list \<times> string \<Rightarrow> (string \<times> string \<times> 'c) list \<times> string" where
  "push_char ch ([], post) = ([], ch # post)"
| "push_char ch ((pre, full, c) # ms, post) = ((ch # pre, full, c) # ms, post)"

fun cons_match :: "string \<times> string \<times> 'c \<Rightarrow> (string \<times> string \<times> 'c) list \<times> string \<Rightarrow> (string \<times> string \<times> 'c) list \<times> string" where
  "cons_match x (ms, post) = (x # ms, post)"

function js_exec_all :: "'c pattern \<Rightarrow> string \<Rightarrow> (string \<times> string \<times> 'c) list \<times> string" where
  "js_exec_all m [] =
     (case m [] of None \<Rightarrow> ([], []) | Some (full, c) \<Rightarrow> ([([], full, c)], []))"
| "js_exec_all m (ch # cs) =
     (case m (ch # cs) of
        None \<Rightarrow> push_char ch (js_exec_all m cs)
      | Some (full, c) \<Rightarrow>
          if full = [] then cons_match ([], full, c) (push_char ch (js_exec_all m cs))
          else cons_match ([], full, c) (js_exec_all m (drop (length full) (ch # cs))))"
  by pat_completeness auto
termination
  by (relation "measure (\<lambda>(m, s). length s)") auto

text \<open>\<^verbatim>\<open>Array.from(s.matchAll(re))\<close>: the matches, each with its text and its capture.\<close>

definition js_matchAll :: "'c pattern \<Rightarrow> string \<Rightarrow> (string \<times> 'c) list" where
  "js_matchAll m s = map snd (fst (js_exec_all m s))"

text \<open>
  \<^verbatim>\<open>s.replace(re, fn)\<close> for a global \<open>re\<close> and a replacer function: the function is called
  once per match, in order, and what it returns is inserted as it is.  The replacer of the
  source has a side effect on a variable, so it takes and returns a state.
\<close>

fun js_splice :: "(string \<times> 'c \<Rightarrow> 's \<Rightarrow> string \<times> 's) \<Rightarrow> (string \<times> string \<times> 'c) list \<Rightarrow> 's \<Rightarrow> string \<times> 's" where
  "js_splice f [] st = ([], st)"
| "js_splice f ((pre, full, c) # ms) st =
     (case f (full, c) st of (r, st1) \<Rightarrow>
        (case js_splice f ms st1 of (out, st2) \<Rightarrow> (pre @ r @ out, st2)))"

definition js_replace_fn :: "'c pattern \<Rightarrow> (string \<times> 'c \<Rightarrow> 's \<Rightarrow> string \<times> 's) \<Rightarrow> string \<Rightarrow> 's \<Rightarrow> string \<times> 's" where
  "js_replace_fn m f s st =
     (case js_exec_all m s of (ms, post) \<Rightarrow>
        (case js_splice f ms st of (out, st') \<Rightarrow> (out @ post, st')))"

text \<open>
  \<^verbatim>\<open>s.replace(re, r)\<close> for a global \<open>re\<close> and a replacement text \<open>r\<close> without \<^verbatim>\<open>$\<close>
  (the source has \<^verbatim>\<open>"/"\<close> and \<^verbatim>\<open>" "\<close>): every match is replaced by \<open>r\<close>.
\<close>

definition js_replace_all :: "'c pattern \<Rightarrow> string \<Rightarrow> string \<Rightarrow> string" where
  "js_replace_all m r s = fst (js_replace_fn m (\<lambda>_ st. (r, st)) s ())"

text \<open>The leftmost match of a pattern: the text before it, the match, the capture, the text after it.\<close>

fun js_search :: "'c pattern \<Rightarrow> string \<Rightarrow> (string \<times> string \<times> 'c \<times> string) option" where
  "js_search m [] =
     (case m [] of None \<Rightarrow> None | Some (full, c) \<Rightarrow> Some ([], full, c, []))"
| "js_search m (ch # cs) =
     (case m (ch # cs) of
        Some (full, c) \<Rightarrow> Some ([], full, c, drop (length full) (ch # cs))
      | None \<Rightarrow> map_option (\<lambda>(pre, full, c, post). (ch # pre, full, c, post)) (js_search m cs))"

text \<open>\<^verbatim>\<open>s.indexOf(pat)\<close>, as the text before and after the first occurrence of \<open>pat\<close>.\<close>

fun index_of :: "string \<Rightarrow> string \<Rightarrow> (string \<times> string) option" where
  "index_of pat [] = (if pat = [] then Some ([], []) else None)"
| "index_of pat (c # cs) =
     (case strip_prefix pat (c # cs) of
        Some rest \<Rightarrow> Some ([], rest)
      | None \<Rightarrow> map_option (\<lambda>(pre, post). (c # pre, post)) (index_of pat cs))"

text \<open>
  \<^verbatim>\<open>GetSubstitution\<close> of ECMAScript, which expands a replacement text given as a string:
  \<^verbatim>\<open>$$\<close> is a dollar sign, \<^verbatim>\<open>$&\<close> the matched text, \<^verbatim>\<open>$`\<close> the text before the match and
  \<^verbatim>\<open>$'\<close> the text after it.  Every pattern that the source replaces with a replacement
  string is a string or a regular expression without groups, so \<^verbatim>\<open>$1\<close> and \<^verbatim>\<open>$<\<close> stay
  as they are.
\<close>

fun get_substitution :: "string \<Rightarrow> string \<Rightarrow> string \<Rightarrow> string \<Rightarrow> string" where
  "get_substitution m b a [] = []"
| "get_substitution m b a [c] = [c]"
| "get_substitution m b a (c # d # t) =
     (if c = CHR ''$'' then
        (if d = CHR ''$'' then CHR ''$'' # get_substitution m b a t
         else if d = CHR ''&'' then m @ get_substitution m b a t
         else if d = CHR 0x60 then b @ get_substitution m b a t
         else if d = CHR 0x27 then a @ get_substitution m b a t
         else c # get_substitution m b a (d # t))
      else c # get_substitution m b a (d # t))"

text \<open>\<^verbatim>\<open>s.replace(pat, r)\<close> for a string \<open>pat\<close>: the first occurrence only.\<close>

definition js_replace_str :: "string \<Rightarrow> string \<Rightarrow> string \<Rightarrow> string" where
  "js_replace_str s pat r =
     (case index_of pat s of
        None \<Rightarrow> s
      | Some (pre, post) \<Rightarrow> pre @ get_substitution pat pre post r @ post)"

text \<open>\<^verbatim>\<open>s.replace(re, r)\<close> for a regular expression without the global flag: the leftmost match only.\<close>

definition js_replace_re :: "'c pattern \<Rightarrow> string \<Rightarrow> string \<Rightarrow> string" where
  "js_replace_re m s r =
     (case js_search m s of
        None \<Rightarrow> s
      | Some (pre, full, c, post) \<Rightarrow> pre @ get_substitution full pre post r @ post)"

section \<open>The path resolver and the title\<close>

text \<open>
  Line 50: \<^verbatim>\<open>const expand = (p: string) => p.replace("${vault}", vaultPath);\<close>
\<close>

definition expand :: "string \<Rightarrow> string \<Rightarrow> string" where
  "expand vaultPath p = js_replace_str p ''${vault}'' vaultPath"

text \<open>
  Lines 205 and 206:
  \<^verbatim>\<open>const baseNoExt = base.replace(/\.tex$/i, "");\<close>
  \<^verbatim>\<open>const niceTitle = baseNoExt.replace(/[_-]+/g, " ").replace(/\s+/g, " ").trim();\<close>
\<close>

definition re_tex_ext :: "unit pattern" where
  "re_tex_ext s0 =
     lit ''.'' (one_of (\<lambda>c. c \<in> set ''tT'') (one_of (\<lambda>c. c \<in> set ''eE'') (one_of (\<lambda>c. c \<in> set ''xX'')
       (eoi (\<lambda>s1. Some (matched s0 s1, ())))))) s0"

definition re_sep_run :: "unit pattern" where
  "re_sep_run s0 = plus_greedy (\<lambda>c. c \<in> set ''_-'') (\<lambda>s1. Some (matched s0 s1, ())) s0"

definition re_space_run :: "unit pattern" where
  "re_space_run s0 = plus_greedy is_space (\<lambda>s1. Some (matched s0 s1, ())) s0"

definition baseNoExt :: "string \<Rightarrow> string" where
  "baseNoExt base = js_replace_re re_tex_ext base []"

definition niceTitle :: "string \<Rightarrow> string" where
  "niceTitle base = trim (js_replace_all re_space_run '' '' (js_replace_all re_sep_run '' '' (baseNoExt base)))"

section \<open>The host: path module, file system, child processes, notices\<close>

text \<open>
  Everything the plugin calls outside its own code is a field of a \<open>host\<close>: Node's
  \<^verbatim>\<open>path\<close> module (pure functions), and the operations with an effect (\<^verbatim>\<open>fs-extra\<close>,
  \<^verbatim>\<open>child_process.exec\<close>, \<^verbatim>\<open>adm-zip\<close>, \<^verbatim>\<open>openurl\<close>), which take the state of the world
  \<open>'w\<close> and return their result with the new state.  An operation that can throw (or reject
  its promise) returns \<open>Inl\<close> of the exception.  \<open>child_exec\<close> runs a command to its end and
  returns what the callback of \<^verbatim>\<open>exec\<close> receives; \<open>child_start\<close> starts a command whose
  callback nobody waits for.  The theorems hold for every host.
\<close>

datatype exn = Exn string

record exec_opts =
  cwd :: "string option"
  shell :: string
  env :: "(string \<times> string) list"

record exec_result =
  err :: "string option"
  stdout :: string
  stderr :: string

record 'w host =
  path_join :: "string list \<Rightarrow> string"
  path_basename :: "string \<Rightarrow> string \<Rightarrow> string"
  path_dirname :: "string \<Rightarrow> string"
  fs_readFile :: "string \<Rightarrow> 'w \<Rightarrow> (exn + string) \<times> 'w"
  fs_writeFile :: "string \<Rightarrow> string \<Rightarrow> 'w \<Rightarrow> (exn + unit) \<times> 'w"
  fs_ensureDir :: "string \<Rightarrow> 'w \<Rightarrow> (exn + unit) \<times> 'w"
  fs_remove :: "string \<Rightarrow> 'w \<Rightarrow> (exn + unit) \<times> 'w"
  fs_pathExists :: "string \<Rightarrow> 'w \<Rightarrow> bool \<times> 'w"
  fs_copy :: "string \<Rightarrow> string \<Rightarrow> 'w \<Rightarrow> (exn + unit) \<times> 'w"
  fs_copyFileSync :: "string \<Rightarrow> string \<Rightarrow> 'w \<Rightarrow> (exn + unit) \<times> 'w"
  child_exec :: "string \<Rightarrow> exec_opts \<Rightarrow> 'w \<Rightarrow> exec_result \<times> 'w"
  child_start :: "string \<Rightarrow> exec_opts \<Rightarrow> 'w \<Rightarrow> (exn + unit) \<times> 'w"
  zip_folder :: "string \<Rightarrow> string \<Rightarrow> 'w \<Rightarrow> (exn + unit) \<times> 'w"
  open_url :: "string \<Rightarrow> 'w \<Rightarrow> (exn + unit) \<times> 'w"

text \<open>
  What the plugin does to the outside is recorded, in order, as a list of events: one event
  per call, with the arguments of the call (and the answer, for \<^verbatim>\<open>pathExists\<close>).  The
  pictographs at the start of some console messages are left out.
\<close>

datatype event =
    Notice string
  | ConsoleLog "string list"
  | ConsoleWarn "string list"
  | ConsoleError "string list"
  | Exec string exec_opts
  | FsReadFile string
  | FsWriteFile string string
  | FsEnsureDir string
  | FsRemove string
  | FsPathExists string bool
  | FsCopy string string
  | FsCopyFileSync string string
  | ZipFolder string string
  | OpenUrl string

text \<open>
  A computation takes the state of the world and the events so far, and returns a value or
  the exception it throws, with the new state and events.
\<close>

type_synonym ('w, 'a) io = "'w \<times> event list \<Rightarrow> (exn + 'a) \<times> 'w \<times> event list"

definition ret :: "'a \<Rightarrow> ('w, 'a) io" where
  "ret x st = (Inr x, st)"

definition bindM :: "('w, 'a) io \<Rightarrow> ('a \<Rightarrow> ('w, 'b) io) \<Rightarrow> ('w, 'b) io" where
  "bindM m f st = (case m st of (Inl e, st') \<Rightarrow> (Inl e, st') | (Inr x, st') \<Rightarrow> f x st')"

definition try_catch :: "('w, 'a) io \<Rightarrow> (exn \<Rightarrow> ('w, 'a) io) \<Rightarrow> ('w, 'a) io" where
  "try_catch m h st = (case m st of (Inl e, st') \<Rightarrow> h e st' | (Inr x, st') \<Rightarrow> (Inr x, st'))"

definition emit :: "event \<Rightarrow> ('w, unit) io" where
  "emit e st = (Inr (), fst st, snd st @ [e])"

definition call :: "event \<Rightarrow> ('w \<Rightarrow> (exn + 'a) \<times> 'w) \<Rightarrow> ('w, 'a) io" where
  "call e op st = (case op (fst st) of (r, w') \<Rightarrow> (r, w', snd st @ [e]))"

definition readFile :: "'w host \<Rightarrow> string \<Rightarrow> ('w, string) io" where
  "readFile h p = call (FsReadFile p) (fs_readFile h p)"

definition writeFile :: "'w host \<Rightarrow> string \<Rightarrow> string \<Rightarrow> ('w, unit) io" where
  "writeFile h p d = call (FsWriteFile p d) (fs_writeFile h p d)"

definition ensureDir :: "'w host \<Rightarrow> string \<Rightarrow> ('w, unit) io" where
  "ensureDir h p = call (FsEnsureDir p) (fs_ensureDir h p)"

definition remove :: "'w host \<Rightarrow> string \<Rightarrow> ('w, unit) io" where
  "remove h p = call (FsRemove p) (fs_remove h p)"

definition pathExists :: "'w host \<Rightarrow> string \<Rightarrow> ('w, bool) io" where
  "pathExists h p st = (case fs_pathExists h p (fst st) of (b, w') \<Rightarrow> (Inr b, w', snd st @ [FsPathExists p b]))"

definition copy :: "'w host \<Rightarrow> string \<Rightarrow> string \<Rightarrow> ('w, unit) io" where
  "copy h a d = call (FsCopy a d) (fs_copy h a d)"

definition copyFileSync :: "'w host \<Rightarrow> string \<Rightarrow> string \<Rightarrow> ('w, unit) io" where
  "copyFileSync h a d = call (FsCopyFileSync a d) (fs_copyFileSync h a d)"

definition exec :: "'w host \<Rightarrow> string \<Rightarrow> exec_opts \<Rightarrow> ('w, exec_result) io" where
  "exec h cmd opts st = (case child_exec h cmd opts (fst st) of (r, w') \<Rightarrow> (Inr r, w', snd st @ [Exec cmd opts]))"

definition exec_start :: "'w host \<Rightarrow> string \<Rightarrow> exec_opts \<Rightarrow> ('w, unit) io" where
  "exec_start h cmd opts = call (Exec cmd opts) (child_start h cmd opts)"

definition zipFolder :: "'w host \<Rightarrow> string \<Rightarrow> string \<Rightarrow> ('w, unit) io" where
  "zipFolder h dir zipPath = call (ZipFolder dir zipPath) (zip_folder h dir zipPath)"

definition openUrl :: "'w host \<Rightarrow> string \<Rightarrow> ('w, unit) io" where
  "openUrl h u = call (OpenUrl u) (open_url h u)"

text \<open>Lines 8 to 18: the settings and their defaults.\<close>

record Md2OverleafSettings =
  scriptPath :: string
  uploadHost :: string
  autoOpen :: bool

definition DEFAULT_SETTINGS :: Md2OverleafSettings where
  "DEFAULT_SETTINGS = \<lparr>scriptPath = ''${vault}/mdtex.sh'', uploadHost = ''https://transfer.sh'', autoOpen = True\<rparr>"

text \<open>The search path that both child processes of lines 63 and 142 get.\<close>

definition fixed_PATH :: string where
  "fixed_PATH = ''/opt/homebrew/bin:/usr/local/bin:/usr/bin:/bin:/usr/sbin:/sbin''"

section \<open>The reference rewriter (lines 105 to 184)\<close>

text \<open>
  Line 106: \<^verbatim>\<open>const toCopy: Array<{abs:string, rel:string}> = [];\<close>
\<close>

record AssetCopyTask =
  abs_path :: string
  rel_path :: string

text \<open>
  Line 109, Pattern A:
  \<^verbatim>\<open>/\\pandocbounded\{\s*\\includegraphics(?:\[[^\]]*\])?\{(pictures\/[^}]+)\}\s*\}/g\<close>
  The pattern returns the matched text and its group 1.
\<close>

definition reBounded :: "string pattern" where
  "reBounded s0 =
     lit (bsl @ ''pandocbounded{'')
      (star_greedy is_space
       (lit (bsl @ ''includegraphics'')
        (opt_greedy (\<lambda>k. lit ''['' (star_greedy (\<lambda>c. c \<noteq> CHR '']'') (lit '']'' k)))
         (lit ''{''
          (\<lambda>s1. lit ''pictures/''
             (plus_greedy (\<lambda>c. c \<noteq> CHR ''}'')
               (\<lambda>s2. lit ''}''
                  (star_greedy is_space
                    (lit ''}'' (\<lambda>s3. Some (matched s0 s3, matched s1 s2)))) s2)) s1))))) s0"

text \<open>Line 113: \<^verbatim>\<open>/\\/g\<close>\<close>

definition re_backslash :: "unit pattern" where
  "re_backslash s0 = lit bsl (\<lambda>s1. Some (matched s0 s1, ())) s0"

text \<open>The canonical directive of lines 116 and 176.\<close>

definition includegraphics :: "string \<Rightarrow> string" where
  "includegraphics p = bsl @ ''includegraphics[width='' @ bsl @ ''linewidth]{'' @ p @ ''}''"

text \<open>
  Lines 111 to 117, the replacer function of Pattern A, with \<open>toCopy\<close> as its state:
  \<^verbatim>\<open>(_full, relPath) => { const abs = path.join(vaultPath, relPath);\<close>
  \<^verbatim>\<open>  const relNormalized = relPath.replace(/\\/g, "/");\<close>
  \<^verbatim>\<open>  toCopy.push({ abs, rel: relNormalized });\<close>
  \<^verbatim>\<open>  return `\\includegraphics[width=\\linewidth]{${relNormalized}}`; }\<close>
\<close>

definition bounded_replacer ::
  "'w host \<Rightarrow> string \<Rightarrow> string \<times> string \<Rightarrow> AssetCopyTask list \<Rightarrow> string \<times> AssetCopyTask list" where
  "bounded_replacer h vaultPath m toCopy =
     (let relPath = snd m;
          abs = path_join h [vaultPath, relPath];
          relNormalized = js_replace_all re_backslash ''/'' relPath
      in (includegraphics relNormalized,
          toCopy @ [\<lparr>abs_path = abs, rel_path = relNormalized\<rparr>]))"

definition rewrite_bounded :: "'w host \<Rightarrow> string \<Rightarrow> string \<Rightarrow> string \<times> AssetCopyTask list" where
  "rewrite_bounded h vaultPath tex = js_replace_fn reBounded (bounded_replacer h vaultPath) tex []"

text \<open>
  Line 121, Pattern B:
  \<^verbatim>\<open>/!\{\[\}\{\[\}(pictures\/[^{}]+?\.md)\{\]\}\{\]\}/g\<close>
\<close>

definition reTldrawEscaped :: "string pattern" where
  "reTldrawEscaped s0 =
     lit ''!{[}{[}''
      (\<lambda>s1. lit ''pictures/''
         (plus_lazy (\<lambda>c. c \<notin> set ''{}'')
           (lit ''.md''
             (\<lambda>s2. lit ''{]}{]}'' (\<lambda>s3. Some (matched s0 s3, matched s1 s2)) s2))) s1) s0"

text \<open>
  Line 126: \<^verbatim>\<open>/```tldraw\s*\n([\s\S]*?)```/\<close>
\<close>

definition re_tldraw_fence :: "string pattern" where
  "re_tldraw_fence s0 =
     lit ''```tldraw''
      (star_greedy is_space
        (lit ''\<newline>''
          (\<lambda>s1. star_lazy (\<lambda>c. True)
             (\<lambda>s2. lit ''```'' (\<lambda>s3. Some (matched s0 s3, matched s1 s2)) s2) s1))) s0"

section \<open>The embedded-drawing exporter (lines 123 to 165)\<close>

text \<open>
  \<open>exportTldrawMdToPng\<close> is one \<^verbatim>\<open>try\<close> block, whose \<^verbatim>\<open>catch\<close> logs a warning and returns
  \<^verbatim>\<open>null\<close>.  The body reads the document, returns \<^verbatim>\<open>null\<close> when it has no fenced block,
  and otherwise writes the payload to a temporary file, starts the converter without waiting
  for it (what its callback logs later is not modelled), removes the temporary file and
  returns the two paths of the picture.  \<^verbatim>\<open>null\<close> is \<open>None\<close>.
\<close>

definition tldraw_body ::
  \<open>'w host \<Rightarrow> string \<Rightarrow> string \<Rightarrow> string \<Rightarrow> string \<Rightarrow> ('w, (string \<times> string) option) io\<close> where
  \<open>tldraw_body h vaultPath outDir stageRoot mdAbs =
     bindM (readFile h mdAbs) (\<lambda>src.
       case js_search re_tldraw_fence src of
         None \<Rightarrow> ret None
       | Some (_, _, drawJson, _) \<Rightarrow>
           (let drawBase = path_basename h mdAbs ''.md'';
                pngRel = ''pictures/'' @ drawBase @ ''.png'';
                pngAbs = path_join h [stageRoot, pngRel];
                tmpTldr = path_join h [outDir, drawBase @ ''.tldr''];
                converter = path_join h [vaultPath, ''tldraw_convert.sh''];
                cmd = ''"'' @ converter @ ''" "'' @ tmpTldr @ ''" "'' @ pngAbs @ ''"''
            in bindM (ensureDir h (path_dirname h pngAbs)) (\<lambda>_.
               bindM (writeFile h tmpTldr drawJson) (\<lambda>_.
               bindM (exec_start h cmd
                        \<lparr>cwd = Some vaultPath, shell = ''/bin/bash'',
                         env = [(''PATH'', fixed_PATH), (''npm_config_yes'', ''true'')]\<rparr>) (\<lambda>_.
               bindM (remove h tmpTldr) (\<lambda>_.
               ret (Some (pngRel, pngAbs))))))))\<close>

definition exportTldrawMdToPng ::
  \<open>'w host \<Rightarrow> string \<Rightarrow> string \<Rightarrow> string \<Rightarrow> string \<Rightarrow> ('w, (string \<times> string) option) io\<close> where
  \<open>exportTldrawMdToPng h vaultPath outDir stageRoot mdAbs =
     try_catch (tldraw_body h vaultPath outDir stageRoot mdAbs)
       (\<lambda>e. bindM (emit (ConsoleWarn [''[md2overleaf] tldraw export failed:'', mdAbs, case e of Exn msg \<Rightarrow> msg]))
              (\<lambda>_. ret None))\<close>

section \<open>The replacement loop of Pattern B (lines 167 to 184)\<close>

text \<open>
  The text that replaces one match: the directive when the exporter returned an object whose
  two fields are truthy (non-empty strings), the comment otherwise.  Both are replacement
  strings of \<^verbatim>\<open>tex.replace(full, replacement)\<close>.
\<close>

definition missing_comment :: "string \<Rightarrow> string" where
  "missing_comment relMd = ''% [md2overleaf] missing tldraw export for '' @ relMd"

definition tldraw_replacement :: "string \<Rightarrow> (string \<times> string) option \<Rightarrow> string" where
  "tldraw_replacement relMd exported =
     (case exported of
        None \<Rightarrow> missing_comment relMd
      | Some (pngRel, pngAbs) \<Rightarrow>
          if pngRel \<noteq> [] \<and> pngAbs \<noteq> [] then includegraphics pngRel else missing_comment relMd)"

definition tldraw_step ::
  "'w host \<Rightarrow> string \<Rightarrow> string \<Rightarrow> string \<Rightarrow> string \<times> string \<Rightarrow> string \<Rightarrow> ('w, string) io" where
  "tldraw_step h vaultPath outDir stageRoot m tex =
     (let full = fst m;
          relMd = trim (snd m);
          absMd = path_join h [vaultPath, relMd]
      in bindM (exportTldrawMdToPng h vaultPath outDir stageRoot absMd) (\<lambda>exported.
           ret (js_replace_str tex full (tldraw_replacement relMd exported))))"

fun tldraw_loop ::
  "'w host \<Rightarrow> string \<Rightarrow> string \<Rightarrow> string \<Rightarrow> (string \<times> string) list \<Rightarrow> string \<Rightarrow> ('w, string) io" where
  "tldraw_loop h vaultPath outDir stageRoot [] tex = ret tex"
| "tldraw_loop h vaultPath outDir stageRoot (m # ms) tex =
     bindM (tldraw_step h vaultPath outDir stageRoot m tex)
       (\<lambda>tex'. tldraw_loop h vaultPath outDir stageRoot ms tex')"

text \<open>
  Lines 109 to 184 together: Pattern A is substituted in \<open>tex\<close> (line 111); then the matches
  of Pattern B are taken from the text that this gave (line 168) and replaced one by one.
\<close>

definition rewrite_refs ::
  "'w host \<Rightarrow> string \<Rightarrow> string \<Rightarrow> string \<Rightarrow> string \<Rightarrow> ('w, string \<times> AssetCopyTask list) io" where
  "rewrite_refs h vaultPath outDir stageRoot tex =
     (case rewrite_bounded h vaultPath tex of
        (tex1, toCopy) \<Rightarrow>
          bindM (tldraw_loop h vaultPath outDir stageRoot (js_matchAll reTldrawEscaped tex1) tex1)
            (\<lambda>tex2. ret (tex2, toCopy)))"

section \<open>The stage builder (lines 186 to 228)\<close>

definition copy_one :: "'w host \<Rightarrow> string \<Rightarrow> AssetCopyTask \<Rightarrow> ('w, unit) io" where
  "copy_one h stageRoot t =
     (let dest = path_join h [stageRoot, rel_path t]
      in bindM (ensureDir h (path_dirname h dest)) (\<lambda>_.
         bindM (pathExists h (abs_path t)) (\<lambda>found.
           if found then copy h (abs_path t) dest
           else emit (ConsoleWarn [''[md2overleaf] missing referenced image:'', abs_path t]))))"

fun copy_assets :: "'w host \<Rightarrow> string \<Rightarrow> AssetCopyTask list \<Rightarrow> ('w, unit) io" where
  "copy_assets h stageRoot [] = ret ()"
| "copy_assets h stageRoot (t # ts) = bindM (copy_one h stageRoot t) (\<lambda>_. copy_assets h stageRoot ts)"

text \<open>Lines 186 to 198: the copy loop, then the rewritten text is written into the stage.\<close>

definition stage_assets :: "'w host \<Rightarrow> string \<Rightarrow> string \<Rightarrow> string \<Rightarrow> AssetCopyTask list \<Rightarrow> ('w, unit) io" where
  "stage_assets h stageRoot stagedTexPath tex toCopy =
     bindM (copy_assets h stageRoot toCopy) (\<lambda>_. writeFile h stagedTexPath tex)"

text \<open>
  Lines 212 and 215: \<^verbatim>\<open>/\\title\s*\{[^}]*\}/\<close> and \<^verbatim>\<open>/\\include\s*\{[^}]*\}/\<close>
\<close>

definition re_directive :: "string \<Rightarrow> unit pattern" where
  "re_directive name s0 =
     lit (bsl @ name)
      (star_greedy is_space
        (lit ''{'' (star_greedy (\<lambda>c. c \<noteq> CHR ''}'') (lit ''}'' (\<lambda>s1. Some (matched s0 s1, ())))))) s0"

text \<open>Lines 202 to 222: the two template files, the title and the inclusion.\<close>

definition patch_template :: "'w host \<Rightarrow> string \<Rightarrow> string \<Rightarrow> string \<Rightarrow> ('w, unit) io" where
  "patch_template h vaultPath stageRoot base =
     bindM (copyFileSync h (path_join h [vaultPath, ''config.tex'']) (path_join h [stageRoot, ''config.tex''])) (\<lambda>_.
     bindM (copyFileSync h (path_join h [vaultPath, ''main.tex'']) (path_join h [stageRoot, ''main.tex''])) (\<lambda>_.
     bindM (readFile h (path_join h [vaultPath, ''main.tex''])) (\<lambda>titletex.
       (let titletex1 = js_replace_re (re_directive ''title'') titletex
                          (bsl @ ''title{'' @ niceTitle base @ ''}'');
            titletex2 = js_replace_re (re_directive ''include'') titletex1
                          (bsl @ ''include{'' @ baseNoExt base @ ''}'')
        in writeFile h (path_join h [stageRoot, ''main.tex'']) titletex2))))"

section \<open>Upload and deep link (lines 233 to 263)\<close>

text \<open>
  Line 245: \<^verbatim>\<open>/https?:\/\/bashupload\.app\/\S+/\<close>
\<close>

definition re_upload_url :: "unit pattern" where
  "re_upload_url s0 =
     lit ''http''
      (opt_greedy (lit ''s'')
        (lit ''://bashupload.app/''
          (plus_greedy (\<lambda>c. \<not> is_space c) (\<lambda>s1. Some (matched s0 s1, ()))))) s0"

definition uploadCmd :: \<open>string \<Rightarrow> string \<Rightarrow> string\<close> where
  \<open>uploadCmd outDir base = ''cd "'' @ outDir @ ''" && curl bashupload.app -T "'' @ base @ ''.zip"''\<close>

definition overleafUrl :: "string \<Rightarrow> string \<Rightarrow> string" where
  "overleafUrl zipUrl base =
     ''https://www.overleaf.com/docs?snip_uri='' @ zipUrl @ ''&engine=xelatex&name='' @ base"

text \<open>Lines 238 to 263: the callback of the upload, given what the upload returned.\<close>

definition after_upload :: "'w host \<Rightarrow> Md2OverleafSettings \<Rightarrow> string \<Rightarrow> exec_result \<Rightarrow> ('w, unit) io" where
  "after_upload h settings base r =
     (case err r of
        Some e \<Rightarrow>
          bindM (emit (ConsoleError [''Upload error:'', stderr r])) (\<lambda>_.
          emit (Notice ''Upload failed. See console for details.''))
      | None \<Rightarrow>
          (case js_search re_upload_url (stdout r) of
             None \<Rightarrow>
               bindM (emit (ConsoleError [''Could not find URL in output:'', stdout r])) (\<lambda>_.
               emit (Notice ''Upload finished, but no URL found in output.''))
           | Some (_, m0, _, _) \<Rightarrow>
               (let zipUrl = trim m0
                in bindM (emit (ConsoleLog [''Overleaf URL:'', overleafUrl zipUrl base])) (\<lambda>_.
                   if autoOpen settings
                   then bindM (openUrl h (overleafUrl zipUrl base)) (\<lambda>_. emit (Notice ''Opening in Overleaf...''))
                   else emit (Notice ''Upload complete. See console for Overleaf URL.'')))))"

definition upload :: "'w host \<Rightarrow> Md2OverleafSettings \<Rightarrow> string \<Rightarrow> string \<Rightarrow> ('w, unit) io" where
  "upload h settings outDir base =
     bindM (emit (Notice ''Uploading to Overleaf...'')) (\<lambda>_.
     bindM (emit (ConsoleLog [''Upload command:'', uploadCmd outDir base])) (\<lambda>_.
     bindM (exec h (uploadCmd outDir base) \<lparr>cwd = None, shell = ''/bin/bash'', env = []\<rparr>)
       (after_upload h settings base)))"

section \<open>The export command (lines 41 to 265)\<close>

text \<open>Line 59 and lines 63 to 70: the command of the converter and its options.\<close>

definition converterCmd :: \<open>string \<Rightarrow> string\<close> where
  \<open>converterCmd filePath = ''./mdtex.sh -v "'' @ filePath @ ''"''\<close>

definition converterOpts :: "string \<Rightarrow> exec_opts" where
  "converterOpts vaultPath = \<lparr>cwd = Some vaultPath, shell = ''/bin/bash'', env = [(''PATH'', fixed_PATH)]\<rparr>"

text \<open>Lines 70 to 264: the callback of the converter, given what the converter returned.\<close>

definition after_convert ::
  "'w host \<Rightarrow> Md2OverleafSettings \<Rightarrow> string \<Rightarrow> string \<Rightarrow> string \<Rightarrow> exec_result \<Rightarrow> ('w, unit) io" where
  "after_convert h settings vaultPath base outDir r =
     (case err r of
        Some e \<Rightarrow>
          bindM (emit (ConsoleError [''Script error:'', stderr r])) (\<lambda>_.
          emit (Notice ''Conversion script failed. See console.''))
      | None \<Rightarrow>
          (let texPath = path_join h [vaultPath, ''.md2overleaf'', base, base @ ''.tex''];
               stageRoot = path_join h [outDir, ''__stage__''];
               stagedTexPath = path_join h [stageRoot, base @ ''.tex''];
               zipPath = path_join h [outDir, base @ ''.zip'']
           in bindM (emit (ConsoleLog [stdout r])) (\<lambda>_.
              bindM (emit (Notice ''Conversion complete. Preparing ZIP...'')) (\<lambda>_.
              bindM (emit (ConsoleLog [''Expecting TEX at:'', texPath])) (\<lambda>_.
              bindM (readFile h texPath) (\<lambda>tex.
              bindM (remove h stageRoot) (\<lambda>_.
              bindM (ensureDir h stageRoot) (\<lambda>_.
              bindM (rewrite_refs h vaultPath outDir stageRoot tex) (\<lambda>(tex2, toCopy).
              bindM (stage_assets h stageRoot stagedTexPath tex2 toCopy) (\<lambda>_.
              bindM (patch_template h vaultPath stageRoot base) (\<lambda>_.
              bindM (zipFolder h stageRoot zipPath) (\<lambda>_.
              upload h settings outDir base))))))))))))"

text \<open>
  Lines 41 to 70.  \<open>file\<close> is the path of the active file in the vault (\<open>None\<close> when no
  file is active) and \<open>vaultPath\<close> the base path of the vault, both supplied by the host
  application.  \<open>script\<close> and \<open>vaultDir\<close> are computed as in lines 57 and 58; the source
  does not use them afterwards.
\<close>

definition exportToOverleaf ::
  "'w host \<Rightarrow> Md2OverleafSettings \<Rightarrow> string option \<Rightarrow> string \<Rightarrow> ('w, unit) io" where
  "exportToOverleaf h settings file vaultPath =
     (case file of
        None \<Rightarrow> emit (Notice ''No active note selected.'')
      | Some file_path \<Rightarrow>
          (let filePath = path_join h [vaultPath, file_path];
               base = path_basename h filePath ''.md'';
               outDir = path_join h [vaultPath, ''.md2overleaf'', base]
           in bindM (ensureDir h outDir) (\<lambda>_.
              (let script = expand vaultPath (scriptPath settings);
                   vaultDir = path_dirname h (expand vaultPath ''${vault}/.'');
                   cmd = converterCmd filePath
               in bindM (emit (ConsoleLog [''Running:'', cmd])) (\<lambda>_.
                  bindM (emit (ConsoleLog [''Vault base path:'', vaultPath])) (\<lambda>_.
                  bindM (exec h cmd (converterOpts vaultPath))
                    (after_convert h settings vaultPath base outDir)))))))"

section \<open>A small host for running the model on examples\<close>

text \<open>
  \<open>table_host files procs\<close> answers from two fixed tables: a file can be read and exists
  when it is in \<open>files\<close>, a command returns what \<open>procs\<close> gives for it (and fails when it is
  not there); every other operation succeeds and the world has no state.  Its path functions
  are the simple cases of Node's: \<open>join\<close> puts a slash between the segments, \<open>basename\<close>
  takes what follows the last slash and strips the extension when it ends with it (and is
  longer), \<open>dirname\<close> takes what precedes the last slash.
\<close>

fun join_slash :: "string list \<Rightarrow> string" where
  "join_slash [] = ''.''"
| "join_slash [x] = x"
| "join_slash (x # y # ys) = x @ ''/'' @ join_slash (y # ys)"

definition last_segment :: "string \<Rightarrow> string" where
  "last_segment p = rev (takeWhile (\<lambda>c. c \<noteq> CHR ''/'') (rev p))"

definition simple_basename :: "string \<Rightarrow> string \<Rightarrow> string" where
  "simple_basename p ext =
     (let b = last_segment p
      in if length ext < length b \<and> drop (length b - length ext) b = ext
         then take (length b - length ext) b else b)"

definition simple_dirname :: "string \<Rightarrow> string" where
  "simple_dirname p = rev (drop 1 (dropWhile (\<lambda>c. c \<noteq> CHR ''/'') (rev p)))"

definition table_host :: "(string \<times> string) list \<Rightarrow> (string \<times> exec_result) list \<Rightarrow> unit host" where
  "table_host files procs =
     \<lparr>path_join = join_slash,
      path_basename = simple_basename,
      path_dirname = simple_dirname,
      fs_readFile = (\<lambda>p w. (case map_of files p of None \<Rightarrow> Inl (Exn ''ENOENT'') | Some d \<Rightarrow> Inr d, w)),
      fs_writeFile = (\<lambda>p d w. (Inr (), w)),
      fs_ensureDir = (\<lambda>p w. (Inr (), w)),
      fs_remove = (\<lambda>p w. (Inr (), w)),
      fs_pathExists = (\<lambda>p w. (case map_of files p of None \<Rightarrow> False | Some d \<Rightarrow> True, w)),
      fs_copy = (\<lambda>a d w. (Inr (), w)),
      fs_copyFileSync = (\<lambda>a d w. (Inr (), w)),
      child_exec = (\<lambda>cmd opts w.
        (case map_of procs cmd of
           None \<Rightarrow> \<lparr>err = Some ''Command failed'', stdout = [], stderr = []\<rparr>
         | Some r \<Rightarrow> r, w)),
      child_start = (\<lambda>cmd opts w. (Inr (), w)),
      zip_folder = (\<lambda>dir z w. (Inr (), w)),
      open_url = (\<lambda>u w. (Inr (), w))\<rparr>"

section \<open>Notions used to state the properties\<close>




text \<open>
  The specification's wording of the title: the extension is stripped, every run of hyphens
  and underscores becomes a single space, every run of whitespace becomes a single space.
  \<open>squeeze P\<close> replaces every maximal run of characters of the class \<open>P\<close> by one space;
  \<open>strip_tex_ext\<close> removes a final \<^verbatim>\<open>.tex\<close>, in any case of its letters.
\<close>

function squeeze :: "(char \<Rightarrow> bool) \<Rightarrow> string \<Rightarrow> string" where
  "squeeze P [] = []"
| "squeeze P (c # cs) = (if P c then CHR '' '' # squeeze P (dropWhile P cs) else c # squeeze P cs)"
  by pat_completeness auto
termination
  by (relation "measure (\<lambda>(P, s). length s)") (auto simp: length_dropWhile_le less_Suc_eq_le)

definition is_sep :: "char \<Rightarrow> bool" where
  "is_sep c = (c \<in> set ''_-'')"

definition tex_exts :: "string list" where
  "tex_exts = [''.tex'', ''.teX'', ''.tEx'', ''.tEX'', ''.Tex'', ''.TeX'', ''.TEx'', ''.TEX'']"

definition strip_tex_ext :: "string \<Rightarrow> string" where
  "strip_tex_ext b =
     (if 4 \<le> length b \<and> drop (length b - 4) b \<in> set tex_exts then take (length b - 4) b else b)"

section \<open>Lemmas about the string primitives\<close>

lemma strip_prefix_iff: "strip_prefix p s = Some r \<longleftrightarrow> s = p @ r"
  by (induction p s rule: strip_prefix.induct) auto

lemma strip_prefix_None_iff: "strip_prefix p s = None \<longleftrightarrow> \<not> prefix p s"
  by (induction p s rule: strip_prefix.induct) auto

lemma strip_prefix_append [simp]: "strip_prefix p (p @ s) = Some s"
  by (simp add: strip_prefix_iff)

lemma lit_Some_iff: "lit p k s = Some r \<longleftrightarrow> (\<exists>s'. s = p @ s' \<and> k s' = Some r)"
  by (auto simp: lit_def strip_prefix_iff split: option.splits)

lemma lit_append [simp]: "lit p k (p @ s) = k s"
  by (simp add: lit_def)

lemma lit_Cons_None: "c \<noteq> d \<Longrightarrow> lit (d # p) k (c # cs) = None"
  by (simp add: lit_def)

lemma lit_Nil_None: "lit (d # p) k [] = None"
  by (simp add: lit_def)

lemma star_greedy_det:
  "(\<And>c cs. P c \<Longrightarrow> k (c # cs) = None) \<Longrightarrow> star_greedy P k s = k (dropWhile P s)"
  by (induction s) (auto split: option.splits)

lemma plus_greedy_det:
  "(\<And>c cs. P c \<Longrightarrow> k (c # cs) = None) \<Longrightarrow>
   plus_greedy P k s = (if takeWhile P s = [] then None else k (dropWhile P s))"
  by (cases s) (auto simp: plus_greedy_def star_greedy_det)

lemma matched_append [simp]: "matched (a @ b) b = a"
  by (simp add: matched_def)

lemma matched_prefix: "prefix (matched s0 s1) s0"
  by (simp add: matched_def take_is_prefix)

lemma matched_dropWhile: 
  "matched s (dropWhile P s) = takeWhile P s"
  by (metis matched_append takeWhile_dropWhile_id)

lemma get_substitution_plain: "CHR ''$'' \<notin> set t \<Longrightarrow> get_substitution m b a t = t"
  by (induction m b a t rule: get_substitution.induct) auto



lemma index_of_None: "index_of pat s = None \<longleftrightarrow> \<not> sublist pat s"
proof (induction pat s rule: index_of.induct)
  case (1 pat)
  then show ?case by (auto simp: sublist_def)
next
  case (2 pat c cs)
  show ?case
  proof (cases "strip_prefix pat (c # cs)")
    case None
    then have np: "\<not> prefix pat (c # cs)" by (simp add: strip_prefix_None_iff)
    have "sublist pat (c # cs) \<longleftrightarrow> sublist pat cs"
      using np by (simp add: sublist_Cons_right)
    with 2 None show ?thesis by simp
  next
    case (Some r)
    then have "prefix pat (c # cs)" by (simp add: strip_prefix_iff)
    then show ?thesis using Some by (auto simp: sublist_Cons_right)
  qed
qed


lemma cons_match_fst: "fst (cons_match x r) = x # fst r"
  by (cases r) simp

lemma cons_match_snd: "snd (cons_match x r) = snd r"
  by (cases r) simp


lemma push_char_Nil_iff: "fst (push_char ch r) = [] \<longleftrightarrow> fst r = []"
  by (cases "(ch, r)" rule: push_char.cases) auto

lemma push_char_Nil: "fst r = [] \<Longrightarrow> push_char ch r = ([], ch # snd r)"
  by (cases r) auto

lemma js_exec_all_no_match:
  "fst (js_exec_all m s) = [] \<Longrightarrow> js_exec_all m s = ([], s)"
proof (induction m s rule: js_exec_all.induct)
  case (1 m)
  then show ?case by (auto split: option.splits)
next
  case (2 m ch cs)
  show ?case
  proof (cases "m (ch # cs)")
    case None
    with 2(4) have "fst (js_exec_all m cs) = []" by (simp add: push_char_Nil_iff)
    with 2(1)[OF None] None show ?thesis by (simp add: push_char_Nil)
  next
    case (Some a)
    with 2(4) show ?thesis by (auto simp: cons_match_fst split: if_splits prod.splits)
  qed
qed

lemma js_replace_fn_no_match:
  "js_matchAll m s = [] \<Longrightarrow> js_replace_fn m f s st = (s, st)"
  using js_exec_all_no_match[of m s] by (simp add: js_matchAll_def js_replace_fn_def)

subsection \<open>What a successful matcher has consumed\<close>

lemma star_greedy_Some:
  "star_greedy P k s = Some r \<Longrightarrow> \<exists>a b. s = a @ b \<and> list_all P a \<and> k b = Some r"
proof (induction s)
  case Nil
  then show ?case by simp
next
  case (Cons c cs)
  show ?case
  proof (cases "P c \<and> star_greedy P k cs = Some r")
    case True
    then have "\<exists>a b. cs = a @ b \<and> list_all P a \<and> k b = Some r" by (simp add: Cons.IH)
    then obtain a b where ab: "cs = a @ b" "list_all P a" "k b = Some r" by (elim exE conjE)
    show ?thesis
      using True ab by (intro exI[of _ "c # a"] exI[of _ b]) simp
  next
    case False
    with Cons.prems have "k (c # cs) = Some r" by (auto split: if_splits option.splits)
    then show ?thesis by (intro exI[of _ "[]"] exI[of _ "c # cs"]) simp
  qed
qed

lemma star_greedy_SomeE:
  assumes "star_greedy P k s = Some r"
  obtains a b where "s = a @ b" and "list_all P a" and "k b = Some r"
proof -
  from star_greedy_Some[OF assms] obtain a b where "s = a @ b" "list_all P a" "k b = Some r"
    by (elim exE conjE)
  then show thesis by (rule that)
qed

lemma plus_greedy_SomeE:
  assumes "plus_greedy P k s = Some r"
  obtains a b where "a \<noteq> []" and "s = a @ b" and "list_all P a" and "k b = Some r"
proof (cases s)
  case Nil
  with assms show thesis by (simp add: plus_greedy_def)
next
  case (Cons c cs)
  with assms have c: "P c" and st: "star_greedy P k cs = Some r"
    by (auto simp: plus_greedy_def split: if_splits)
  from st obtain a b where ab: "cs = a @ b" "list_all P a" "k b = Some r"
    by (rule star_greedy_SomeE)
  show thesis
  proof (rule that[of "c # a" b])
    show "c # a \<noteq> []" by simp
    show "s = (c # a) @ b" using Cons ab by simp
    show "list_all P (c # a)" using c ab by simp
    show "k b = Some r" by (rule ab)
  qed
qed

lemma star_lazy_Some:
  "star_lazy P k s = Some r \<Longrightarrow> \<exists>a b. s = a @ b \<and> list_all P a \<and> k b = Some r"
proof (induction s)
  case Nil
  then show ?case by simp
next
  case (Cons c cs)
  show ?case
  proof (cases "k (c # cs)")
    case None
    with Cons.prems have c: "P c" and st: "star_lazy P k cs = Some r" by (auto split: if_splits)
    from Cons.IH[OF st] obtain a b where ab: "cs = a @ b" "list_all P a" "k b = Some r"
      by (elim exE conjE)
    show ?thesis
      using c ab by (intro exI[of _ "c # a"] exI[of _ b]) simp
  next
    case (Some r')
    with Cons.prems have "k (c # cs) = Some r" by simp
    then show ?thesis by (intro exI[of _ "[]"] exI[of _ "c # cs"]) simp
  qed
qed

lemma star_lazy_SomeE:
  assumes "star_lazy P k s = Some r"
  obtains a b where "s = a @ b" and "list_all P a" and "k b = Some r"
proof -
  from star_lazy_Some[OF assms] obtain a b where "s = a @ b" "list_all P a" "k b = Some r"
    by (elim exE conjE)
  then show thesis by (rule that)
qed

lemma plus_lazy_SomeE:
  assumes "plus_lazy P k s = Some r"
  obtains a b where "a \<noteq> []" and "s = a @ b" and "list_all P a" and "k b = Some r"
proof (cases s)
  case Nil
  with assms show thesis by (simp add: plus_lazy_def)
next
  case (Cons c cs)
  with assms have c: "P c" and st: "star_lazy P k cs = Some r"
    by (auto simp: plus_lazy_def split: if_splits)
  from st obtain a b where ab: "cs = a @ b" "list_all P a" "k b = Some r"
    by (rule star_lazy_SomeE)
  show thesis
  proof (rule that[of "c # a" b])
    show "c # a \<noteq> []" by simp
    show "s = (c # a) @ b" using Cons ab by simp
    show "list_all P (c # a)" using c ab by simp
    show "k b = Some r" by (rule ab)
  qed
qed

lemma opt_greedy_Some: "opt_greedy g k s = Some r \<Longrightarrow> g k s = Some r \<or> k s = Some r"
  by (simp add: opt_greedy_def split: option.splits)

lemma matched_eq: "s0 = a @ s1 \<Longrightarrow> matched s0 s1 = a"
  by simp

lemma lit_SomeE:
  assumes "lit p k s = Some r"
  obtains s' where "s = p @ s'" and "k s' = Some r"
proof -
  from assms have "\<exists>s'. s = p @ s' \<and> k s' = Some r" by (simp add: lit_Some_iff)
  then obtain s' where "s = p @ s'" "k s' = Some r" by (elim exE conjE)
  then show thesis by (rule that)
qed

subsection \<open>Pattern A\<close>


lemma js_splice_const:
  "js_splice (\<lambda>_ st. (r, st)) ms u = (concat (map (\<lambda>(pre, full, c). pre @ r) ms), u)"
  by (induction ms arbitrary: u) auto

lemma push_char_render:
  "concat (map (\<lambda>(pre, full, c). pre @ f full c) (fst (push_char ch R))) @ snd (push_char ch R)
   = ch # concat (map (\<lambda>(pre, full, c). pre @ f full c) (fst R)) @ snd R"
  by (cases "(ch, R)" rule: push_char.cases) auto

lemma js_replace_all_Nil:
  "js_replace_all m r [] = (case m [] of None \<Rightarrow> [] | Some x \<Rightarrow> r)"
  by (simp add: js_replace_all_def js_replace_fn_def js_splice_const split: option.splits prod.splits)

lemma js_replace_all_Cons:
  "js_replace_all m r (ch # cs) =
     (case m (ch # cs) of
        None \<Rightarrow> ch # js_replace_all m r cs
      | Some (full, c) \<Rightarrow>
          if full = [] then r @ ch # js_replace_all m r cs
          else r @ js_replace_all m r (drop (length full) (ch # cs)))"
proof -
  have out: "js_replace_all m r s =
     concat (map (\<lambda>(pre, full, c). pre @ r) (fst (js_exec_all m s))) @ snd (js_exec_all m s)" for s
    by (simp add: js_replace_all_def js_replace_fn_def js_splice_const split: prod.splits)
  show ?thesis
  proof (cases "m (ch # cs)")
    case None
    then show ?thesis
      using push_char_render[of "\<lambda>full c. r" ch "js_exec_all m cs"] by (simp add: out)
  next
    case (Some a)
    obtain full c where a: "a = (full, c)" by (cases a)
    show ?thesis
    proof (cases "full = []")
      case True
      with Some a show ?thesis
        using push_char_render[of "\<lambda>full c. r" ch "js_exec_all m cs"]
        by (simp add: out cons_match_fst cons_match_snd)
    next
      case False
      with Some a show ?thesis
        by (simp add: out cons_match_fst cons_match_snd)
    qed
  qed
qed










subsection \<open>Computations\<close>

lemma bindM_ret [simp]: "bindM (ret x) f = f x"
  by (rule ext) (simp add: bindM_def ret_def)

lemma bindM_emit [simp]: "bindM (emit e) f (w, evs) = f () (w, evs @ [e])"
  by (simp add: bindM_def emit_def)

lemma emit_apply [simp]: "emit e (w, evs) = (Inr (), w, evs @ [e])"
  by (simp add: emit_def)

lemma ret_apply [simp]: "ret x st = (Inr x, st)"
  by (simp add: ret_def)

lemma bindM_call:
  "bindM (call e op) f (w, evs) =
     (case op w of (Inl x, w') \<Rightarrow> (Inl x, w', evs @ [e]) | (Inr v, w') \<Rightarrow> f v (w', evs @ [e]))"
  by (simp add: bindM_def call_def split: prod.splits sum.splits)


subsection \<open>The leftmost match\<close>

lemma js_search_Some:
  "js_search m s = Some (pre, full, c, post) \<Longrightarrow>
     m (drop (length pre) s) = Some (full, c) \<and> pre = take (length pre) s \<and>
     post = drop (length full) (drop (length pre) s) \<and>
     (\<forall>n < length pre. m (drop n s) = None)"
proof (induction m s arbitrary: pre rule: js_search.induct)
  case (1 m)
  then show ?case by (auto split: option.splits)
next
  case (2 m ch cs)
  show ?case
  proof (cases "m (ch # cs)")
    case None
    with 2(2) obtain pre' where s: "js_search m cs = Some (pre', full, c, post)" and p: "pre = ch # pre'"
      by auto
    from 2(1)[OF None s] have ih: "m (drop (length pre') cs) = Some (full, c)"
      "pre' = take (length pre') cs" "post = drop (length full) (drop (length pre') cs)"
      "\<forall>n < length pre'. m (drop n cs) = None" by auto
    have "m (drop n (ch # cs)) = None" if "n < length pre" for n
    proof (cases n)
      case 0
      with None show ?thesis by simp
    next
      case (Suc k)
      with that p ih(4) show ?thesis by simp
    qed
    with ih p show ?thesis by simp
  next
    case (Some a)
    with 2(2) show ?thesis by (auto split: prod.splits)
  qed
qed

lemma js_search_None:
  "js_search m s = None \<Longrightarrow> \<forall>n \<le> length s. m (drop n s) = None"
proof (induction m s rule: js_search.induct)
  case (1 m)
  then show ?case by (auto split: option.splits)
next
  case (2 m ch cs)
  from 2(2) have None: "m (ch # cs) = None" by (auto split: option.splits)
  with 2(2) have "js_search m cs = None" by simp
  from 2(1)[OF None this] have ih: "\<forall>n \<le> length cs. m (drop n cs) = None" .
  have "m (drop n (ch # cs)) = None" if "n \<le> length (ch # cs)" for n
  proof (cases n)
    case 0
    with None show ?thesis by simp
  next
    case (Suc k)
    with that ih show ?thesis by simp
  qed
  then show ?case by blast
qed

subsection \<open>Trimming\<close>

lemma trim_id:
  assumes "s \<noteq> []" and "\<not> is_space (hd s)" and "\<not> is_space (last s)"
  shows "trim s = s"
proof -
  from assms(1,2) have a: "dropWhile is_space s = s" by (cases s) auto
  from assms(1,3) have "dropWhile is_space (rev s) = rev s"
    by (cases "rev s") (auto simp: last_rev[symmetric] simp del: last_rev)
  with a show ?thesis by (simp add: trim_def)
qed

subsection \<open>The pattern of the upload URL\<close>

lemma re_upload_url_shape:
  assumes "re_upload_url s = Some (u, c)"
  shows "\<exists>t rest. s = u @ rest \<and> t \<noteq> [] \<and> list_all (\<lambda>c. \<not> is_space c) t \<and>
           (u = ''http://bashupload.app/'' @ t \<or> u = ''https://bashupload.app/'' @ t)"
proof -
  define H where "H = ''http''"
  define S where "S = ''s''"
  define D where "D = ''://bashupload.app/''"
  define K where "K = lit D (plus_greedy (\<lambda>c. \<not> is_space c) (\<lambda>s1. Some (matched s s1, ())))"
  have "re_upload_url s = lit H (opt_greedy (lit S) K) s"
    by (simp only: re_upload_url_def H_def S_def D_def K_def)
  with assms have "lit H (opt_greedy (lit S) K) s = Some (u, c)" by simp
  then obtain t1 where t1: "s = H @ t1" and r1: "opt_greedy (lit S) K t1 = Some (u, c)"
    by (rule lit_SomeE)
  have "\<exists>o2 t2. t1 = o2 @ t2 \<and> (o2 = [] \<or> o2 = S) \<and> K t2 = Some (u, c)"
  proof -
    from opt_greedy_Some[OF r1] show ?thesis
    proof
      assume "lit S K t1 = Some (u, c)"
      then obtain t2 where "t1 = S @ t2" "K t2 = Some (u, c)" by (rule lit_SomeE)
      then show ?thesis by (intro exI[of _ S] exI[of _ t2]) simp
    next
      assume "K t1 = Some (u, c)"
      then show ?thesis by (intro exI[of _ "[]"] exI[of _ t1]) simp
    qed
  qed
  then obtain o2 t2 where t2: "t1 = o2 @ t2" and o2: "o2 = [] \<or> o2 = S" and r2: "K t2 = Some (u, c)"
    by (elim exE conjE)
  from r2 have "lit D (plus_greedy (\<lambda>c. \<not> is_space c) (\<lambda>s1. Some (matched s s1, ()))) t2 = Some (u, c)"
    by (simp only: K_def)
  then obtain t3 where t3: "t2 = D @ t3"
    and r3: "plus_greedy (\<lambda>c. \<not> is_space c) (\<lambda>s1. Some (matched s s1, ())) t3 = Some (u, c)"
    by (rule lit_SomeE)
  from r3 obtain t rest where t: "t \<noteq> []" and t4: "t3 = t @ rest"
    and ns: "list_all (\<lambda>c. \<not> is_space c) t" and r4: "Some (matched s rest, ()) = Some (u, c)"
    by (rule plus_greedy_SomeE)
  have e: "s = (H @ o2 @ D @ t) @ rest" using t1 t2 t3 t4 by simp
  from matched_eq[OF e] r4 have u: "u = H @ o2 @ D @ t" by simp
  from e u have e': "s = u @ rest" by simp
  from u o2 have "u = ''http://bashupload.app/'' @ t \<or> u = ''https://bashupload.app/'' @ t"
    by (auto simp: H_def S_def D_def)
  with e' t ns show ?thesis by (intro exI[of _ t] exI[of _ rest] conjI)
qed

lemma re_upload_url_trim:
  assumes "re_upload_url s = Some (u, c)"
  shows "trim u = u"
proof -
  from re_upload_url_shape[OF assms] obtain t where t: "t \<noteq> []" "list_all (\<lambda>c. \<not> is_space c) t"
    and u: "u = ''http://bashupload.app/'' @ t \<or> u = ''https://bashupload.app/'' @ t"
    by (elim exE conjE)
  from t have "\<not> is_space (last t)" by (simp add: list_all_iff)
  with t(1) u have "\<not> is_space (last u)" by auto
  moreover from u have "\<not> is_space (hd u)" by (auto simp: is_space_def)
  moreover from u have "u \<noteq> []" by auto
  ultimately show ?thesis by (simp add: trim_id)
qed

subsection \<open>The copy loop\<close>



subsection \<open>The exporter returns, whatever fails inside it\<close>



lemma exporter_unreadable:
  assumes "fst (fs_readFile h mdAbs w) = Inl e"
  shows "exportTldrawMdToPng h vaultPath outDir stageRoot mdAbs (w, evs) =
           (Inr None, snd (fs_readFile h mdAbs w),
            evs @ [FsReadFile mdAbs,
                   ConsoleWarn [''[md2overleaf] tldraw export failed:'', mdAbs, case e of Exn msg \<Rightarrow> msg]])"
proof -
  obtain r w1 where p: "fs_readFile h mdAbs w = (r, w1)" by (cases "fs_readFile h mdAbs w")
  with assms have r: "r = Inl e" by simp
  have "tldraw_body h vaultPath outDir stageRoot mdAbs (w, evs) = (Inl e, w1, evs @ [FsReadFile mdAbs])"
    using p r by (simp add: tldraw_body_def readFile_def bindM_call)
  with p show ?thesis by (simp add: exportTldrawMdToPng_def try_catch_def)
qed

lemma exporter_no_fence:
  assumes "fst (fs_readFile h mdAbs w) = Inr src" and "js_search re_tldraw_fence src = None"
  shows "exportTldrawMdToPng h vaultPath outDir stageRoot mdAbs (w, evs) =
           (Inr None, snd (fs_readFile h mdAbs w), evs @ [FsReadFile mdAbs])"
proof -
  obtain r w1 where p: "fs_readFile h mdAbs w = (r, w1)" by (cases "fs_readFile h mdAbs w")
  with assms have r: "r = Inr src" by simp
  have "tldraw_body h vaultPath outDir stageRoot mdAbs (w, evs) = (Inr None, w1, evs @ [FsReadFile mdAbs])"
    using p r assms(2) by (simp add: tldraw_body_def readFile_def bindM_call)
  with p show ?thesis by (simp add: exportTldrawMdToPng_def try_catch_def)
qed


subsection \<open>Replacement of the first occurrence of a string\<close>

lemma js_replace_str_absent: "\<not> sublist pat t \<Longrightarrow> js_replace_str t pat r = t"
  by (simp add: js_replace_str_def index_of_None[symmetric])


subsection \<open>A text without matches\<close>

lemma rewrite_refs_no_match:
  assumes "js_matchAll reBounded t = []" and "js_matchAll reTldrawEscaped t = []"
  shows "rewrite_refs h v od sr t st = (Inr (t, []), st)"
proof -
  from assms(1) have "rewrite_bounded h v t = (t, [])"
    by (simp add: rewrite_bounded_def js_replace_fn_no_match)
  with assms(2) show ?thesis by (simp add: rewrite_refs_def)
qed

subsection \<open>The settings that the export reads\<close>

lemma exportToOverleaf_settings:
  assumes "scriptPath s1 = scriptPath s2" and "autoOpen s1 = autoOpen s2"
  shows "exportToOverleaf h s1 file vaultPath st = exportToOverleaf h s2 file vaultPath st"
proof -
  have u: "after_upload h s1 base = after_upload h s2 base" for base
    by (rule ext) (simp add: after_upload_def assms(2) split: option.splits prod.splits)
  have up: "upload h s1 od base = upload h s2 od base" for od base
    by (simp add: upload_def u)
  have "after_convert h s1 v base od = after_convert h s2 v base od" for v base od
    by (intro ext) (simp add: after_convert_def up Let_def split: option.splits)
  then show ?thesis by (simp add: exportToOverleaf_def assms(1) Let_def split: option.splits)
qed

subsection \<open>The path resolver on a root path without a dollar sign\<close>

lemma expand_absent: "\<not> sublist ''${vault}'' p \<Longrightarrow> expand v p = p"
  by (simp add: expand_def js_replace_str_absent)

lemma expand_plain:
  assumes "CHR ''$'' \<notin> set v" and "index_of ''${vault}'' p = Some (pre, post)"
  shows "expand v p = pre @ v @ post"
  using assms by (simp add: expand_def js_replace_str_def get_substitution_plain)

subsection \<open>The title\<close>

lemma star_greedy_total:
  assumes "\<And>s. k s \<noteq> None"
  shows "star_greedy P k s = k (dropWhile P s)"
proof (induction s)
  case Nil
  show ?case by simp
next
  case (Cons c cs)
  from assms[of "dropWhile P cs"] obtain r where "k (dropWhile P cs) = Some r" by auto
  with Cons show ?case by simp
qed

lemma re_run:
  "plus_greedy P (\<lambda>s1. Some (matched s0 s1, ())) s =
     (case s of [] \<Rightarrow> None | c # cs \<Rightarrow> if P c then Some (matched s0 (dropWhile P cs), ()) else None)"
  by (cases s) (simp_all add: plus_greedy_def star_greedy_total)

lemma js_replace_all_run:
  "\<forall>s0. m s0 = plus_greedy P (\<lambda>s1. Some (matched s0 s1, ())) s0 \<Longrightarrow>
   js_replace_all m '' '' s = squeeze P s"
proof (induction P s rule: squeeze.induct)
  case (1 P)
  then show ?case by (simp add: js_replace_all_Nil re_run)
next
  case (2 P c cs)
  note m_def = 2(3)[rule_format]
  show ?case
  proof (cases "P c")
    case True
    have e: "c # cs = (c # takeWhile P cs) @ dropWhile P cs" by simp
    from matched_eq[OF e] have mt: "matched (c # cs) (dropWhile P cs) = c # takeWhile P cs" .
    have "m (c # cs) = plus_greedy P (\<lambda>s1. Some (matched (c # cs) s1, ())) (c # cs)" by (rule m_def)
    also have "\<dots> = Some (matched (c # cs) (dropWhile P cs), ())" using True by (simp add: re_run)
    finally have m: "m (c # cs) = Some (c # takeWhile P cs, ())" by (simp only: mt)
    have "drop (length (c # takeWhile P cs)) (c # cs) = dropWhile P cs"
      by (metis append_eq_conv_conj e)
    with 2(1)[OF True 2(3)] m show ?thesis by (simp add: js_replace_all_Cons True)
  next
    case False
    then have "m (c # cs) = None" by (simp add: m_def re_run)
    with 2(2)[OF False 2(3)] False show ?thesis by (simp add: js_replace_all_Cons)
  qed
qed

lemma one_of_SomeE:
  assumes "one_of P k s = Some r"
  obtains c cs where "s = c # cs" and "P c" and "k cs = Some r"
  using assms by (cases s) (auto simp: one_of_def split: if_splits)

lemma re_tex_ext_Some:
  assumes "re_tex_ext s = Some r"
  shows "s \<in> set tex_exts"
proof -
  define K where "K = (\<lambda>s1. Some (matched s s1, ()))"
  define A where "A = (\<lambda>c. c \<in> set ''tT'')"
  define B where "B = (\<lambda>c. c \<in> set ''eE'')"
  define C where "C = (\<lambda>c. c \<in> set ''xX'')"
  have "re_tex_ext s = lit ''.'' (one_of A (one_of B (one_of C (eoi K)))) s"
    by (simp only: re_tex_ext_def K_def A_def B_def C_def)
  with assms have "lit ''.'' (one_of A (one_of B (one_of C (eoi K)))) s = Some r" by simp
  then obtain s1 where s1: "s = ''.'' @ s1" and r1: "one_of A (one_of B (one_of C (eoi K))) s1 = Some r"
    by (rule lit_SomeE)
  from r1 obtain c1 s2 where s2: "s1 = c1 # s2" and c1: "A c1" and r2: "one_of B (one_of C (eoi K)) s2 = Some r"
    by (rule one_of_SomeE)
  from r2 obtain c2 s3 where s3: "s2 = c2 # s3" and c2: "B c2" and r3: "one_of C (eoi K) s3 = Some r"
    by (rule one_of_SomeE)
  from r3 obtain c3 s4 where s4: "s3 = c3 # s4" and c3: "C c3" and r4: "eoi K s4 = Some r"
    by (rule one_of_SomeE)
  from r4 have "s4 = []" by (simp add: eoi_def split: if_splits)
  with s1 s2 s3 s4 have s: "s = [CHR ''.'', c1, c2, c3]" by simp
  from c1 have "c1 = CHR ''t'' \<or> c1 = CHR ''T''" by (simp add: A_def)
  moreover from c2 have "c2 = CHR ''e'' \<or> c2 = CHR ''E''" by (simp add: B_def)
  moreover from c3 have "c3 = CHR ''x'' \<or> c3 = CHR ''X''" by (simp add: C_def)
  ultimately show ?thesis unfolding s tex_exts_def by (elim disjE) simp_all
qed

lemma re_tex_ext_iff:
  "re_tex_ext s = (if s \<in> set tex_exts then Some (s, ()) else None)"
proof (cases "s \<in> set tex_exts")
  case True
  then show ?thesis
    by (auto simp: tex_exts_def re_tex_ext_def lit_def one_of_def eoi_def matched_def)
next
  case False
  with re_tex_ext_Some[of s] show ?thesis by (cases "re_tex_ext s") auto
qed

lemma tex_exts_length: "e \<in> set tex_exts \<Longrightarrow> length e = 4"
  by (auto simp: tex_exts_def)

lemma js_search_tex_ext:
  "js_search re_tex_ext b =
     (if 4 \<le> length b \<and> drop (length b - 4) b \<in> set tex_exts
      then Some (take (length b - 4) b, drop (length b - 4) b, (), []) else None)"
proof (induction b)
  case Nil
  show ?case by (simp add: re_tex_ext_iff tex_exts_def)
next
  case (Cons c cs)
  show ?case
  proof (cases "c # cs \<in> set tex_exts")
    case True
    then have "length (c # cs) = 4" by (rule tex_exts_length)
    with True show ?thesis by (simp add: re_tex_ext_iff)
  next
    case False
    have l: "length cs \<noteq> 3" if "drop (length cs - 3) (c # cs) \<in> set tex_exts"
    proof
      assume "length cs = 3"
      with that False show False by simp
    qed
    show ?thesis
    proof (cases "4 \<le> length cs")
      case True
      then have "drop (length (c # cs) - 4) (c # cs) = drop (length cs - 4) cs"
        by (simp add: drop_Cons' )
      moreover from True have "take (length (c # cs) - 4) (c # cs) = c # take (length cs - 4) cs"
        by (simp add: take_Cons')
      ultimately show ?thesis using False True Cons by (simp add: re_tex_ext_iff)
    next
      case f: False
      then have "length (c # cs) \<le> 4" by simp
      have "drop (length (c # cs) - 4) (c # cs) \<notin> set tex_exts"
      proof
        assume a: "drop (length (c # cs) - 4) (c # cs) \<in> set tex_exts"
        from tex_exts_length[OF a] f have "length cs = 3" by simp
        with a False show False by simp
      qed
      with f False Cons show ?thesis by (simp add: re_tex_ext_iff)
    qed
  qed
qed

lemma baseNoExt_strip: "baseNoExt b = strip_tex_ext b"
  by (simp add: baseNoExt_def js_replace_re_def js_search_tex_ext strip_tex_ext_def)

section \<open>The claims\<close>

subsection \<open>Reference rewriting\<close>






text \<open>
  Claim C3, as stated, fails: the precondition speaks of Pattern B only, and a substitution
  of Pattern A can produce a new match of Pattern A.  For a wrapper inside a wrapper, the
  first pass rewrites the inner wrapper, the result has no match of Pattern B, and the second
  pass rewrites the outer wrapper, so the two passes give different texts.
\<close>

theorem rewrite_twice_counterexample:
  "rewrite_refs (table_host [] []) ''/v'' ''/v/out'' ''/v/out/__stage__''
     (bsl @ ''pandocbounded{'' @ bsl @ ''pandocbounded{'' @ bsl @ ''includegraphics{pictures/x}}}'') ((), []) =
     (Inr (bsl @ ''pandocbounded{'' @ bsl @ ''includegraphics[width='' @ bsl @ ''linewidth]{pictures/x}}'',
           [\<lparr>abs_path = ''/v/pictures/x'', rel_path = ''pictures/x''\<rparr>]), (), []) \<and>
   js_matchAll reTldrawEscaped
     (bsl @ ''pandocbounded{'' @ bsl @ ''includegraphics[width='' @ bsl @ ''linewidth]{pictures/x}}'') = [] \<and>
   rewrite_refs (table_host [] []) ''/v'' ''/v/out'' ''/v/out/__stage__''
     (bsl @ ''pandocbounded{'' @ bsl @ ''includegraphics[width='' @ bsl @ ''linewidth]{pictures/x}}'') ((), []) =
     (Inr (bsl @ ''includegraphics[width='' @ bsl @ ''linewidth]{pictures/x}'',
           [\<lparr>abs_path = ''/v/pictures/x'', rel_path = ''pictures/x''\<rparr>]), (), []) \<and>
   bsl @ ''includegraphics[width='' @ bsl @ ''linewidth]{pictures/x}'' \<noteq>
     bsl @ ''pandocbounded{'' @ bsl @ ''includegraphics[width='' @ bsl @ ''linewidth]{pictures/x}}''"
  by code_simp

text \<open>
  Claim C3, amended.  When the text after the first pass has no match of Pattern A and no
  match of Pattern B, the second pass returns the same text, records no task and has no
  effect.  (This is the lemma \<open>rewrite_refs_no_match\<close>, for a text with neither pattern,
  at the text after the first pass.)
\<close>

theorem rewrite_twice_when_nothing_left:
  assumes "rewrite_refs h v od sr tex st = (Inr (t1, c1), st1)"
    and "js_matchAll reBounded t1 = []" and "js_matchAll reTldrawEscaped t1 = []"
  shows "rewrite_refs h v od sr t1 st1 = (Inr (t1, []), st1)"
  using assms(2,3) by (rule rewrite_refs_no_match)

text \<open>The theorem at a text with one wrapper and one placeholder whose document is missing.\<close>

theorem rewrite_twice_when_nothing_left_witness:
  "rewrite_refs (table_host [] []) ''/v'' ''/v/out'' ''/v/out/__stage__''
     (''See '' @ bsl @ ''pandocbounded{'' @ bsl @ ''includegraphics{pictures/x.png}} and !{[}{[}pictures/s.md{]}{]}.'') ((), []) =
     (Inr (''See '' @ bsl @ ''includegraphics[width='' @ bsl @ ''linewidth]{pictures/x.png} and % [md2overleaf] missing tldraw export for pictures/s.md.'',
           [\<lparr>abs_path = ''/v/pictures/x.png'', rel_path = ''pictures/x.png''\<rparr>]),
      (), [FsReadFile ''/v/pictures/s.md'',
           ConsoleWarn [''[md2overleaf] tldraw export failed:'', ''/v/pictures/s.md'', ''ENOENT'']]) \<and>
   js_matchAll reBounded
     (''See '' @ bsl @ ''includegraphics[width='' @ bsl @ ''linewidth]{pictures/x.png} and % [md2overleaf] missing tldraw export for pictures/s.md.'') = [] \<and>
   js_matchAll reTldrawEscaped
     (''See '' @ bsl @ ''includegraphics[width='' @ bsl @ ''linewidth]{pictures/x.png} and % [md2overleaf] missing tldraw export for pictures/s.md.'') = [] \<and>
   rewrite_refs (table_host [] []) ''/v'' ''/v/out'' ''/v/out/__stage__''
     (''See '' @ bsl @ ''includegraphics[width='' @ bsl @ ''linewidth]{pictures/x.png} and % [md2overleaf] missing tldraw export for pictures/s.md.'')
     ((), [FsReadFile ''/v/pictures/s.md'',
           ConsoleWarn [''[md2overleaf] tldraw export failed:'', ''/v/pictures/s.md'', ''ENOENT'']]) =
     (Inr (''See '' @ bsl @ ''includegraphics[width='' @ bsl @ ''linewidth]{pictures/x.png} and % [md2overleaf] missing tldraw export for pictures/s.md.'', []),
      (), [FsReadFile ''/v/pictures/s.md'',
           ConsoleWarn [''[md2overleaf] tldraw export failed:'', ''/v/pictures/s.md'', ''ENOENT'']])"
proof -
  let ?tex = "''See '' @ bsl @ ''pandocbounded{'' @ bsl @ ''includegraphics{pictures/x.png}} and !{[}{[}pictures/s.md{]}{]}.''"
  let ?t1 = "''See '' @ bsl @ ''includegraphics[width='' @ bsl @ ''linewidth]{pictures/x.png} and % [md2overleaf] missing tldraw export for pictures/s.md.''"
  let ?evs = "[FsReadFile ''/v/pictures/s.md'',
           ConsoleWarn [''[md2overleaf] tldraw export failed:'', ''/v/pictures/s.md'', ''ENOENT'']]"
  have a: "rewrite_refs (table_host [] []) ''/v'' ''/v/out'' ''/v/out/__stage__'' ?tex ((), []) =
     (Inr (?t1, [\<lparr>abs_path = ''/v/pictures/x.png'', rel_path = ''pictures/x.png''\<rparr>]), (), ?evs)"
    by code_simp
  have b: "js_matchAll reBounded ?t1 = []" by code_simp
  have c: "js_matchAll reTldrawEscaped ?t1 = []" by code_simp
  from rewrite_twice_when_nothing_left[OF a b c] a b c show ?thesis by (intro conjI)
qed

text \<open>
  Claim C4.  The exporter never throws and returns \<^verbatim>\<open>null\<close> for an unreadable document and
  for a document without a fenced block (lemmas \<open>exporter_never_throws\<close>,
  \<open>exporter_unreadable\<close> and \<open>exporter_no_fence\<close>).  The second half of the claim fails for
  a path with a dollar sign: the comment is the replacement text of
  \<^verbatim>\<open>tex.replace(full, replacement)\<close>, in which \<^verbatim>\<open>$$\<close> stands for one dollar sign.  For
  the placeholder of \<^verbatim>\<open>pictures/a$$b.md\<close>, whose document has no fenced block, the final
  text holds a comment for \<^verbatim>\<open>pictures/a$b.md\<close>, and neither the comment for the path of
  the match nor the path itself occurs in it.
\<close>

theorem missing_comment_loses_dollar:
  "rewrite_refs (table_host [(''/v/pictures/a$$b.md'', ''no drawing here'')] []) ''/v'' ''/v/out'' ''/v/out/__stage__''
     ''See !{[}{[}pictures/a$$b.md{]}{]}.'' ((), []) =
     (Inr (''See % [md2overleaf] missing tldraw export for pictures/a$b.md.'', []), (),
      [FsReadFile ''/v/pictures/a$$b.md'']) \<and>
   js_matchAll reTldrawEscaped ''See !{[}{[}pictures/a$$b.md{]}{]}.'' =
     [(''!{[}{[}pictures/a$$b.md{]}{]}'', ''pictures/a$$b.md'')] \<and>
   index_of (missing_comment ''pictures/a$$b.md'')
     ''See % [md2overleaf] missing tldraw export for pictures/a$b.md.'' = None \<and>
   index_of ''pictures/a$$b.md''
     ''See % [md2overleaf] missing tldraw export for pictures/a$b.md.'' = None"
  by code_simp

subsection \<open>The stage builder\<close>



subsection \<open>The converter\<close>

text \<open>
  Claim C6.  The working directory of the converter is the vault, but its command does not
  come from the setting: with the script path \<^verbatim>\<open>${vault}/tools/convert.sh\<close> the source runs
  \<^verbatim>\<open>./mdtex.sh -v "/v/Notes.md"\<close>, where the claim has
  \<^verbatim>\<open>/v/tools/convert.sh -v "/v/Notes.md"\<close>.  (The converter is not in the table of the
  host, so the run ends with the failure notice.)
\<close>

theorem converter_command_ignores_scriptPath:
  \<open>exportToOverleaf (table_host [] [])
     \<lparr>scriptPath = ''${vault}/tools/convert.sh'', uploadHost = ''https://transfer.sh'', autoOpen = True\<rparr>
     (Some ''Notes.md'') ''/v'' ((), []) =
   (Inr (), (),
    [FsEnsureDir ''/v/.md2overleaf/Notes'',
     ConsoleLog [''Running:'', ''./mdtex.sh -v "/v/Notes.md"''],
     ConsoleLog [''Vault base path:'', ''/v''],
     Exec ''./mdtex.sh -v "/v/Notes.md"''
       \<lparr>cwd = Some ''/v'', shell = ''/bin/bash'',
        env = [(''PATH'', ''/opt/homebrew/bin:/usr/local/bin:/usr/bin:/bin:/usr/sbin:/sbin'')]\<rparr>,
     ConsoleError [''Script error:'', []],
     Notice ''Conversion script failed. See console.'']) \<and>
   expand ''/v'' ''${vault}/tools/convert.sh'' @ '' -v "/v/Notes.md"'' = ''/v/tools/convert.sh -v "/v/Notes.md"''\<close>
  by code_simp

subsection \<open>Upload and deep link\<close>

text \<open>
  Claim C7.  Let the upload have ended without error.  When the search for the URL pattern
  in its standard output succeeds, the match \<open>u\<close> stands in the output, the pattern matches
  there and at no position further left, and the link is
  \<^verbatim>\<open>https://www.overleaf.com/docs?snip_uri=\<close>\<open>u\<close>\<^verbatim>\<open>&engine=xelatex&name=\<close>\<open>base\<close>, both
  inserted as they are; it is logged, and opened when \<open>autoOpen\<close> is set.  When the search
  fails, the pattern matches at no position of the output, and the only events are the error
  message and the notice that no URL was found.
\<close>

theorem upload_deep_link:
  assumes "err r = None"
  shows "(\<forall>pre u c post. js_search re_upload_url (stdout r) = Some (pre, u, c, post) \<longrightarrow>
            stdout r = pre @ u @ post \<and>
            re_upload_url (u @ post) = Some (u, c) \<and>
            (\<forall>n < length pre. re_upload_url (drop n (stdout r)) = None) \<and>
            after_upload h settings base r (w, evs) =
              (let link = ''https://www.overleaf.com/docs?snip_uri='' @ u @ ''&engine=xelatex&name='' @ base
               in if autoOpen settings
                  then (case open_url h link w of
                          (Inl x, w') \<Rightarrow> (Inl x, w', evs @ [ConsoleLog [''Overleaf URL:'', link], OpenUrl link])
                        | (Inr v, w') \<Rightarrow>
                            (Inr (), w', evs @ [ConsoleLog [''Overleaf URL:'', link], OpenUrl link,
                                               Notice ''Opening in Overleaf...'']))
                  else (Inr (), w, evs @ [ConsoleLog [''Overleaf URL:'', link],
                                          Notice ''Upload complete. See console for Overleaf URL.'']))) \<and>
         (js_search re_upload_url (stdout r) = None \<longrightarrow>
            (\<forall>n \<le> length (stdout r). re_upload_url (drop n (stdout r)) = None) \<and>
            after_upload h settings base r (w, evs) =
              (Inr (), w, evs @ [ConsoleError [''Could not find URL in output:'', stdout r],
                                 Notice ''Upload finished, but no URL found in output.'']))"
proof (intro conjI allI impI)
  fix pre u c post
  assume s: "js_search re_upload_url (stdout r) = Some (pre, u, c, post)"
  from js_search_Some[OF s] have m: "re_upload_url (drop (length pre) (stdout r)) = Some (u, c)"
    and p: "pre = take (length pre) (stdout r)"
    and q: "post = drop (length u) (drop (length pre) (stdout r))"
    and f: "\<forall>n < length pre. re_upload_url (drop n (stdout r)) = None" by auto
  from re_upload_url_shape[OF m] obtain rest where "drop (length pre) (stdout r) = u @ rest"
    by (elim exE conjE)
  with q have dr: "drop (length pre) (stdout r) = u @ post" by simp
  from p dr show e: "stdout r = pre @ u @ post"
    by (metis append_take_drop_id)
  from m dr show "re_upload_url (u @ post) = Some (u, c)" by simp
  from f show "\<And>n. n < length pre \<Longrightarrow> re_upload_url (drop n (stdout r)) = None" by simp
  from re_upload_url_trim[OF m] have t: "trim u = u" .
  show "after_upload h settings base r (w, evs) =
              (let link = ''https://www.overleaf.com/docs?snip_uri='' @ u @ ''&engine=xelatex&name='' @ base
               in if autoOpen settings
                  then (case open_url h link w of
                          (Inl x, w') \<Rightarrow> (Inl x, w', evs @ [ConsoleLog [''Overleaf URL:'', link], OpenUrl link])
                        | (Inr v, w') \<Rightarrow>
                            (Inr (), w', evs @ [ConsoleLog [''Overleaf URL:'', link], OpenUrl link,
                                               Notice ''Opening in Overleaf...'']))
                  else (Inr (), w, evs @ [ConsoleLog [''Overleaf URL:'', link],
                                          Notice ''Upload complete. See console for Overleaf URL.'']))"
    using assms s t
    by (simp add: after_upload_def Let_def overleafUrl_def openUrl_def bindM_call
             split: prod.splits sum.splits)
next
  assume s: "js_search re_upload_url (stdout r) = None"
  from js_search_None[OF s] show "\<And>n. n \<le> length (stdout r) \<Longrightarrow> re_upload_url (drop n (stdout r)) = None"
    by simp
  from assms s show "after_upload h settings base r (w, evs) =
              (Inr (), w, evs @ [ConsoleError [''Could not find URL in output:'', stdout r],
                                 Notice ''Upload finished, but no URL found in output.''])"
    by (simp add: after_upload_def)
qed

text \<open>The theorem at an output with a URL and at an output without one.\<close>

theorem upload_deep_link_witness:
  \<open>err \<lparr>err = None, stdout = ''done https://bashupload.app/abc.zip (1MB)'', stderr = []\<rparr> = None \<and>
   js_search re_upload_url ''done https://bashupload.app/abc.zip (1MB)'' =
     Some (''done '', ''https://bashupload.app/abc.zip'', (), '' (1MB)'') \<and>
   after_upload (table_host [] []) DEFAULT_SETTINGS ''My Notes''
     \<lparr>err = None, stdout = ''done https://bashupload.app/abc.zip (1MB)'', stderr = []\<rparr> ((), []) =
     (Inr (), (),
      [ConsoleLog [''Overleaf URL:'', ''https://www.overleaf.com/docs?snip_uri=https://bashupload.app/abc.zip&engine=xelatex&name=My Notes''],
       OpenUrl ''https://www.overleaf.com/docs?snip_uri=https://bashupload.app/abc.zip&engine=xelatex&name=My Notes'',
       Notice ''Opening in Overleaf...'']) \<and>
   err \<lparr>err = None, stdout = ''curl: (6) Could not resolve host'', stderr = []\<rparr> = None \<and>
   js_search re_upload_url ''curl: (6) Could not resolve host'' = None \<and>
   after_upload (table_host [] []) DEFAULT_SETTINGS ''My Notes''
     \<lparr>err = None, stdout = ''curl: (6) Could not resolve host'', stderr = []\<rparr> ((), []) =
     (Inr (), (),
      [ConsoleError [''Could not find URL in output:'', ''curl: (6) Could not resolve host''],
       Notice ''Upload finished, but no URL found in output.''])\<close>
proof -
  let ?r1 = "\<lparr>err = None, stdout = ''done https://bashupload.app/abc.zip (1MB)'', stderr = []\<rparr>"
  let ?r2 = "\<lparr>err = None, stdout = ''curl: (6) Could not resolve host'', stderr = []\<rparr>"
  have e1: "err ?r1 = None" and e2: "err ?r2 = None" by simp_all
  have s1: "js_search re_upload_url (stdout ?r1) =
     Some (''done '', ''https://bashupload.app/abc.zip'', (), '' (1MB)'')" by code_simp
  have s2: "js_search re_upload_url (stdout ?r2) = None" by code_simp
  have o: "open_url (table_host [] []) u () = (Inr (), ())" for u by (simp add: table_host_def)
  have a: "autoOpen DEFAULT_SETTINGS" by (simp add: DEFAULT_SETTINGS_def)
  note d1 = upload_deep_link[OF e1, of "table_host [] []" DEFAULT_SETTINGS "''My Notes''" "()" "[]",
      THEN conjunct1, rule_format, OF s1, THEN conjunct2, THEN conjunct2, THEN conjunct2]
  from d1 have r1: "after_upload (table_host [] []) DEFAULT_SETTINGS ''My Notes'' ?r1 ((), []) =
     (Inr (), (),
      [ConsoleLog [''Overleaf URL:'', ''https://www.overleaf.com/docs?snip_uri=https://bashupload.app/abc.zip&engine=xelatex&name=My Notes''],
       OpenUrl ''https://www.overleaf.com/docs?snip_uri=https://bashupload.app/abc.zip&engine=xelatex&name=My Notes'',
       Notice ''Opening in Overleaf...''])"
    by (simp add: o a Let_def)
  note d2 = upload_deep_link[OF e2, of "table_host [] []" DEFAULT_SETTINGS "''My Notes''" "()" "[]",
      THEN conjunct2, rule_format, OF s2, THEN conjunct2]
  from d2 have r2: "after_upload (table_host [] []) DEFAULT_SETTINGS ''My Notes'' ?r2 ((), []) =
     (Inr (), (),
      [ConsoleError [''Could not find URL in output:'', ''curl: (6) Could not resolve host''],
       Notice ''Upload finished, but no URL found in output.''])"
    by simp
  from e1 e2 s1 s2 r1 r2 show ?thesis by simp
qed

text \<open>
  Claim C10.  Two settings with the same script path and the same \<open>autoOpen\<close> give the same
  export: the same result, state and events, whatever their upload hosts.  The upload runs
  the command \<open>uploadCmd\<close>, which changes to the output directory and then is the fixed
  \<^verbatim>\<open>curl bashupload.app -T "<base>.zip"\<close>, and every URL that the search extracts begins
  with \<^verbatim>\<open>http://bashupload.app/\<close> or \<^verbatim>\<open>https://bashupload.app/\<close>.
\<close>

theorem uploadHost_is_ignored:
  assumes "scriptPath s1 = scriptPath s2" and "autoOpen s1 = autoOpen s2"
  shows \<open>exportToOverleaf h s1 file vaultPath st = exportToOverleaf h s2 file vaultPath st \<and>
         upload h s1 outDir base (w, evs) =
           after_upload h s1 base
             (fst (child_exec h (uploadCmd outDir base) \<lparr>cwd = None, shell = ''/bin/bash'', env = []\<rparr> w))
             (snd (child_exec h (uploadCmd outDir base) \<lparr>cwd = None, shell = ''/bin/bash'', env = []\<rparr> w),
              evs @ [Notice ''Uploading to Overleaf...'', ConsoleLog [''Upload command:'', uploadCmd outDir base],
                     Exec (uploadCmd outDir base) \<lparr>cwd = None, shell = ''/bin/bash'', env = []\<rparr>]) \<and>
         uploadCmd outDir base = ''cd "'' @ outDir @ ''" && '' @ ''curl bashupload.app -T "'' @ base @ ''.zip"'' \<and>
         (\<forall>pre u c post. js_search re_upload_url out = Some (pre, u, c, post) \<longrightarrow>
            prefix ''http://bashupload.app/'' u \<or> prefix ''https://bashupload.app/'' u)\<close>
proof (intro conjI allI impI)
  show "exportToOverleaf h s1 file vaultPath st = exportToOverleaf h s2 file vaultPath st"
    using assms by (rule exportToOverleaf_settings)
  show \<open>upload h s1 outDir base (w, evs) =
           after_upload h s1 base
             (fst (child_exec h (uploadCmd outDir base) \<lparr>cwd = None, shell = ''/bin/bash'', env = []\<rparr> w))
             (snd (child_exec h (uploadCmd outDir base) \<lparr>cwd = None, shell = ''/bin/bash'', env = []\<rparr> w),
              evs @ [Notice ''Uploading to Overleaf...'', ConsoleLog [''Upload command:'', uploadCmd outDir base],
                     Exec (uploadCmd outDir base) \<lparr>cwd = None, shell = ''/bin/bash'', env = []\<rparr>])\<close>
    by (simp add: upload_def exec_def bindM_def split: prod.splits)
  show \<open>uploadCmd outDir base = ''cd "'' @ outDir @ ''" && '' @ ''curl bashupload.app -T "'' @ base @ ''.zip"''\<close>
    by (simp add: uploadCmd_def)
  fix pre u c post assume "js_search re_upload_url out = Some (pre, u, c, post)"
  from js_search_Some[OF this] have "re_upload_url (drop (length pre) out) = Some (u, c)" by simp
  from re_upload_url_shape[OF this] obtain t where
    "u = ''http://bashupload.app/'' @ t \<or> u = ''https://bashupload.app/'' @ t" by (elim exE conjE)
  then show "prefix ''http://bashupload.app/'' u \<or> prefix ''https://bashupload.app/'' u"
    by (auto simp: prefix_def)
qed

text \<open>The theorem at the default settings and the default settings with another upload host.\<close>

theorem uploadHost_is_ignored_witness:
  \<open>scriptPath DEFAULT_SETTINGS = scriptPath (DEFAULT_SETTINGS\<lparr>uploadHost := ''https://example.org''\<rparr>) \<and>
   autoOpen DEFAULT_SETTINGS = autoOpen (DEFAULT_SETTINGS\<lparr>uploadHost := ''https://example.org''\<rparr>) \<and>
   uploadHost DEFAULT_SETTINGS \<noteq> uploadHost (DEFAULT_SETTINGS\<lparr>uploadHost := ''https://example.org''\<rparr>) \<and>
   exportToOverleaf (table_host [] []) DEFAULT_SETTINGS (Some ''Notes.md'') ''/v'' ((), []) =
     exportToOverleaf (table_host [] []) (DEFAULT_SETTINGS\<lparr>uploadHost := ''https://example.org''\<rparr>)
       (Some ''Notes.md'') ''/v'' ((), []) \<and>
   uploadCmd ''/v/.md2overleaf/Notes'' ''Notes'' =
     ''cd "/v/.md2overleaf/Notes" && curl bashupload.app -T "Notes.zip"'' \<and>
   js_search re_upload_url ''see https://bashupload.app/abc.zip'' =
     Some (''see '', ''https://bashupload.app/abc.zip'', (), []) \<and>
   prefix ''https://bashupload.app/'' ''https://bashupload.app/abc.zip''\<close>
proof -
  let ?s2 = "DEFAULT_SETTINGS\<lparr>uploadHost := ''https://example.org''\<rparr>"
  have h1: "scriptPath DEFAULT_SETTINGS = scriptPath ?s2" by simp
  have h2: "autoOpen DEFAULT_SETTINGS = autoOpen ?s2" by simp
  have h3: "uploadHost DEFAULT_SETTINGS \<noteq> uploadHost ?s2" by (simp add: DEFAULT_SETTINGS_def)
  have s: "js_search re_upload_url ''see https://bashupload.app/abc.zip'' =
     Some (''see '', ''https://bashupload.app/abc.zip'', (), [])" by code_simp
  note th = uploadHost_is_ignored[OF h1 h2, of "table_host [] []" "Some ''Notes.md''" "''/v''" "((), [])"
      "''/v/.md2overleaf/Notes''" "''Notes''" "()" "[]" "''see https://bashupload.app/abc.zip''"]
  from th have e: "exportToOverleaf (table_host [] []) DEFAULT_SETTINGS (Some ''Notes.md'') ''/v'' ((), []) =
     exportToOverleaf (table_host [] []) ?s2 (Some ''Notes.md'') ''/v'' ((), [])" by (elim conjE)
  from th have c: \<open>uploadCmd ''/v/.md2overleaf/Notes'' ''Notes'' =
     ''cd "/v/.md2overleaf/Notes" && curl bashupload.app -T "Notes.zip"''\<close> by simp
  from th s have p: "prefix ''http://bashupload.app/'' ''https://bashupload.app/abc.zip'' \<or>
     prefix ''https://bashupload.app/'' ''https://bashupload.app/abc.zip''" by blast
  then have p': "prefix ''https://bashupload.app/'' ''https://bashupload.app/abc.zip''" by simp
  from h1 h2 h3 e c s p' show ?thesis by (intro conjI)
qed

subsection \<open>Title and path resolver\<close>

text \<open>
  Claim C8.  For every base name, the title is the name without a final \<^verbatim>\<open>.tex\<close> (in any
  case of its letters), with every run of hyphens and underscores replaced by a single space,
  then every run of whitespace replaced by a single space, trimmed.  In particular the title
  of \<^verbatim>\<open>My_Great-Paper\<close> is \<^verbatim>\<open>My Great Paper\<close> and the title of \<^verbatim>\<open>a--b__c\<close> is
  \<^verbatim>\<open>a b c\<close>.
\<close>

theorem niceTitle_derivation:
  "niceTitle base = trim (squeeze is_space (squeeze is_sep (strip_tex_ext base))) \<and>
   niceTitle ''My_Great-Paper'' = ''My Great Paper'' \<and> niceTitle ''a--b__c'' = ''a b c'' \<and>
   niceTitle ''  field_notes--2024.TeX '' = ''field notes 2024.TeX''  \<and>
   niceTitle ''field_notes--2024.TeX'' = ''field notes 2024''"
proof -
  have a: "js_replace_all re_sep_run '' '' s = squeeze is_sep s" for s
    by (rule js_replace_all_run) (simp only: re_sep_run_def is_sep_def[abs_def] simp_thms)
  have b: "js_replace_all re_space_run '' '' s = squeeze is_space s" for s
    by (rule js_replace_all_run) (simp only: re_space_run_def simp_thms)
  have g: "niceTitle base = trim (squeeze is_space (squeeze is_sep (strip_tex_ext base)))"
    by (simp add: niceTitle_def a b baseNoExt_strip)
  have e: "niceTitle ''My_Great-Paper'' = ''My Great Paper'' \<and> niceTitle ''a--b__c'' = ''a b c'' \<and>
     niceTitle ''  field_notes--2024.TeX '' = ''field notes 2024.TeX''  \<and>
     niceTitle ''field_notes--2024.TeX'' = ''field notes 2024''"
    by code_simp
  from g e show ?thesis by (rule conjI)
qed

text \<open>
  Claim C9.  The root path is the replacement text of \<^verbatim>\<open>p.replace("${vault}", vaultPath)\<close>,
  so the patterns of a replacement text are expanded in it: for the root path
  \<^verbatim>\<open>/home/u/My$$Vault\<close> the resolver returns the template with \<^verbatim>\<open>/home/u/My$Vault\<close> in
  the place of the placeholder.  (For a root path without a dollar sign the result is the
  template with the root path in the place of the first placeholder, and a template without
  the placeholder is returned as it is: lemmas \<open>expand_plain\<close> and \<open>expand_absent\<close>.)
\<close>

theorem expand_dollar_in_vault_path:
  "expand ''/home/u/My$$Vault'' ''${vault}/mdtex.sh'' = ''/home/u/My$Vault/mdtex.sh''"
  by code_simp

end
